theory Spec2Isabelle
  imports Main "HOL-Library.AList"
begin

section \<open>The JavaScript host\<close>

text \<open>
  src/codemode/search.ts uses three built-ins of the JavaScript host:
  \<^verbatim>\<open>new RegExp(s, "i")\<close>, which yields a regular expression or throws a SyntaxError,
  \<^verbatim>\<open>regex.test(text)\<close> and \<^verbatim>\<open>String.prototype.toLowerCase\<close>. They are not code of the
  repository, so every function that uses them takes the host as a parameter:
  \<open>RegExp_i s = None\<close> stands for the thrown SyntaxError. The regular expressions carry
  only the flag \<^verbatim>\<open>i\<close>, so \<^verbatim>\<open>test\<close> keeps no state between calls.
\<close>

record 'rx js_host =
  RegExp_i :: "string \<Rightarrow> 'rx option"
  rx_test :: "'rx \<Rightarrow> string \<Rightarrow> bool"
  toLowerCase :: "string \<Rightarrow> string"

definition squote :: char where
  "squote = CHR 0x27"

definition backslash :: char where
  "backslash = CHR 0x5C"

text \<open>The character class of \<^verbatim>\<open>/[.*+?^${}()|[\]\\]/g\<close> in \<^verbatim>\<open>createQueryRegex\<close>.\<close>

definition metachars :: string where
  "metachars = ''.*+?^${}()|[]'' @ [backslash]"

text \<open>\<^verbatim>\<open>query.replace(/[.*+?^${}()|[\]\\]/g, "\\$&")\<close>: every occurrence of a character of
  the class is replaced by a backslash followed by that character.\<close>

definition escapeRegExp :: "string \<Rightarrow> string" where
  "escapeRegExp query = concat (map (\<lambda>c. if c \<in> set metachars then [backslash, c] else [c]) query)"

section \<open>Data of the gateway\<close>

datatype server_status = Connected | Disconnected | Reconnecting | Error

record capabilities =
  cap_tools :: bool
  cap_resources :: bool
  cap_prompts :: bool

text \<open>\<^verbatim>\<open>BackendServerInfo\<close>, the value of \<^verbatim>\<open>client.getInfo()\<close> and the element type of
  \<^verbatim>\<open>listServers()\<close>.\<close>

record server_info =
  info_name :: string
  info_status :: server_status
  info_capabilities :: capabilities

text \<open>Capabilities as a backend lists them. JSON values (schemas, arguments, results) are
  opaque to the code under study and are kept as strings.\<close>

record tool =
  tool_name :: string
  tool_description :: "string option"
  tool_inputSchema :: string

record resource =
  res_uri :: string
  res_name :: string
  res_description :: "string option"
  res_mimeType :: "string option"

record resource_template =
  tmpl_uriTemplate :: string
  tmpl_name :: string
  tmpl_description :: "string option"
  tmpl_mimeType :: "string option"

record prompt_arg =
  arg_name :: string
  arg_description :: "string option"
  arg_required :: "bool option"

record prompt =
  prompt_name :: string
  prompt_description :: "string option"
  prompt_arguments :: "prompt_arg list option"

text \<open>
  A backend client (\<^verbatim>\<open>MCPHttpClient\<close>, \<^verbatim>\<open>IMCPClient\<close>). Its implementation (client.js) is
  not among the sources; the registry and the search only call its methods. A client
  is therefore the snapshot of what its backend answers: each method either returns a
  value (\<open>Inr\<close>) or throws an error with a message (\<open>Inl\<close>).
\<close>

record client =
  c_info :: server_info
  c_listTools :: "string + tool list"
  c_listResources :: "string + resource list"
  c_listResourceTemplates :: "string + resource_template list"
  c_listPrompts :: "string + prompt list"
  c_callTool :: "string \<Rightarrow> string \<Rightarrow> string + string"
  c_readResource :: "string \<Rightarrow> string + string"
  c_getPrompt :: "string \<Rightarrow> string \<Rightarrow> string + string"
  c_disconnect :: "string option"

text \<open>Modelled from the spec: \<^verbatim>\<open>isConnected()\<close> of the client class (client.js), which is
  missing from the sources. Section 3 gives a connection the field
  \<open>status \<in> {connected, disconnected, reconnecting, error}\<close> and section 4.1 says that
  fan-out enumerates only \<^verbatim>\<open>status=="connected"\<close> connections.\<close>

definition isConnected :: "client \<Rightarrow> bool" where
  "isConnected c = (info_status (c_info c) = Connected)"

text \<open>Requests that reach a backend, and the outward effects of the code in program
  order: a backend contacted, a pending request rejected, the status callback invoked,
  a line written by \<^verbatim>\<open>console.error\<close>.\<close>

datatype request =
    ListTools
  | ListResources
  | ListResourceTemplates
  | ListPrompts
  | CallTool string string
  | ReadResource string
  | GetPrompt string string
  | Connect
  | Disconnect

datatype pending_kind = Sampling | Elicitation

datatype effect =
    Contact string request
  | Rejected pending_kind string string
  | StatusCallback string server_info
  | ConsoleError string

section \<open>Search: src/codemode/search.ts\<close>

subsection \<open>Query matching\<close>

text \<open>\<^verbatim>\<open>createQueryRegex\<close>: the nested try/catch, \<open>None\<close> for the returned \<^verbatim>\<open>null\<close>.\<close>

definition createQueryRegex :: "'rx js_host \<Rightarrow> string \<Rightarrow> 'rx option" where
  "createQueryRegex host query =
     (case RegExp_i host query of
        Some r \<Rightarrow> Some r
      | None \<Rightarrow>
          (let escaped = escapeRegExp query in
           case RegExp_i host escaped of
             Some r \<Rightarrow> Some r
           | None \<Rightarrow> None))"

text \<open>\<^verbatim>\<open>matchesQuery\<close>: \<^verbatim>\<open>!text\<close> holds for \<^verbatim>\<open>undefined\<close> and for the empty string.\<close>

definition matchesQuery :: "'rx js_host \<Rightarrow> string option \<Rightarrow> 'rx \<Rightarrow> bool" where
  "matchesQuery host text regex =
     (case text of
        None \<Rightarrow> False
      | Some t \<Rightarrow> if t = [] then False else rx_test host regex t)"

text \<open>\<^verbatim>\<open>matchesServerFilter\<close>: \<^verbatim>\<open>!serverPattern\<close> holds for an absent and for an empty
  pattern.\<close>

definition matchesServerFilter :: "'rx js_host \<Rightarrow> string \<Rightarrow> string option \<Rightarrow> bool" where
  "matchesServerFilter host serverName serverPattern =
     (case serverPattern of
        None \<Rightarrow> True
      | Some p \<Rightarrow>
          if p = [] then True
          else (case RegExp_i host p of
                  Some regex \<Rightarrow> rx_test host regex serverName
                | None \<Rightarrow> toLowerCase host serverName = toLowerCase host p))"

subsection \<open>Session and query\<close>

datatype search_type = Tools | Resources | Prompts | Servers | All

record search_query =
  sq_query :: string
  sq_type :: search_type
  sq_server :: "string option"
  sq_includeSchemas :: "bool option"

record search_tool_result =
  st_server :: string
  st_name :: string
  st_description :: "string option"
  st_inputSchema :: "string option"

record search_resource_result =
  sr_server :: string
  sr_uri :: string
  sr_name :: string
  sr_description :: "string option"
  sr_mimeType :: "string option"

record search_prompt_arg =
  spa_name :: string
  spa_required :: "bool option"

record search_prompt_result =
  sp_server :: string
  sp_name :: string
  sp_description :: "string option"
  sp_arguments :: "search_prompt_arg list option"

record search_server_result =
  ss_name :: string
  ss_status :: server_status
  ss_capabilities :: capabilities

text \<open>\<^verbatim>\<open>SearchResult\<close>: every category is an optional key, \<open>None\<close> when the key is absent.\<close>

record search_result =
  r_tools :: "search_tool_result list option"
  r_resources :: "search_resource_result list option"
  r_prompts :: "search_prompt_result list option"
  r_servers :: "search_server_result list option"

definition empty_result :: search_result where
  "empty_result = \<lparr>r_tools = None, r_resources = None, r_prompts = None, r_servers = None\<rparr>"

text \<open>
  \<^verbatim>\<open>SessionState\<close> (session-state.js) is not among the sources. The search reads the
  session only through \<^verbatim>\<open>getMatchingClients\<close> and \<^verbatim>\<open>session.getConnection(name)\<close>, so a
  session is its keyed collection of connections in iteration order, each with the
  fields of section 3 of the spec; the client of a connection may be missing
  (\<^verbatim>\<open>connection?.client\<close>, \<^verbatim>\<open>client?.getInfo()\<close>).
\<close>

record connection =
  conn_status :: server_status
  conn_client :: "client option"

record session =
  sessionId :: string
  backendConnections :: "(string \<times> connection) list"

definition getConnection :: "session \<Rightarrow> string \<Rightarrow> connection option" where
  "getConnection s n = map_of (backendConnections s) n"

text \<open>Modelled from the spec: the matching of a server pattern inside
  \<^verbatim>\<open>getMatchingClients\<close> (api-bindings.js, missing from the sources). Section 4.1:
  the pattern is a case-insensitive regular expression if parseable, otherwise a literal
  equality match after lower-casing both sides; an omitted pattern selects all servers.\<close>

definition serverPattern_selects :: "'rx js_host \<Rightarrow> string option \<Rightarrow> string \<Rightarrow> bool" where
  "serverPattern_selects host serverPattern n =
     (case serverPattern of
        None \<Rightarrow> True
      | Some p \<Rightarrow>
          (case RegExp_i host p of
             Some regex \<Rightarrow> rx_test host regex n
           | None \<Rightarrow> toLowerCase host n = toLowerCase host p))"

text \<open>Modelled from the spec: \<^verbatim>\<open>getMatchingClients(session, serverPattern)\<close> of
  api-bindings.js, which is missing from the sources. Section 4.1: fan-out is over the
  connected matching servers and enumerates only \<^verbatim>\<open>status=="connected"\<close> connections, in
  the iteration order of the registered servers.\<close>

definition getMatchingClients ::
  "'rx js_host \<Rightarrow> session \<Rightarrow> string option \<Rightarrow> (string \<times> client) list" where
  "getMatchingClients host s serverPattern =
     concat (map (\<lambda>(n, conn).
        if conn_status conn = Connected \<and> serverPattern_selects host serverPattern n
        then (case conn_client conn of None \<Rightarrow> [] | Some cl \<Rightarrow> [(n, cl)])
        else []) (backendConnections s))"

subsection \<open>The individual search functions\<close>

definition toolResult :: "string \<Rightarrow> bool option \<Rightarrow> tool \<Rightarrow> search_tool_result" where
  "toolResult serverName includeSchemas t =
     \<lparr>st_server = serverName, st_name = tool_name t, st_description = tool_description t,
      st_inputSchema = (if includeSchemas = Some True then Some (tool_inputSchema t) else None)\<rparr>"

definition tool_kept :: "'rx js_host \<Rightarrow> 'rx \<Rightarrow> tool \<Rightarrow> bool" where
  "tool_kept host queryRegex t =
     (matchesQuery host (Some (tool_name t)) queryRegex \<or>
      matchesQuery host (tool_description t) queryRegex)"

text \<open>The inner loop of \<^verbatim>\<open>searchTools\<close>, pushing onto \<^verbatim>\<open>results\<close>.\<close>

fun searchTools_push ::
  "'rx js_host \<Rightarrow> 'rx \<Rightarrow> bool option \<Rightarrow> string \<Rightarrow> tool list \<Rightarrow>
   search_tool_result list \<Rightarrow> search_tool_result list" where
  "searchTools_push host queryRegex includeSchemas serverName [] results = results"
| "searchTools_push host queryRegex includeSchemas serverName (t # ts) results =
     (if tool_kept host queryRegex t
      then searchTools_push host queryRegex includeSchemas serverName ts
             (results @ [toolResult serverName includeSchemas t])
      else searchTools_push host queryRegex includeSchemas serverName ts results)"

text \<open>The outer loop of \<^verbatim>\<open>searchTools\<close> over the clients: \<^verbatim>\<open>continue\<close> when the server
  filter rejects the name; otherwise the backend is contacted, and a thrown error is
  caught and the server skipped.\<close>

fun searchTools_loop ::
  "'rx js_host \<Rightarrow> 'rx \<Rightarrow> string option \<Rightarrow> bool option \<Rightarrow> (string \<times> client) list \<Rightarrow>
   search_tool_result list \<times> effect list \<Rightarrow> search_tool_result list \<times> effect list" where
  "searchTools_loop host queryRegex serverPattern includeSchemas [] st = st"
| "searchTools_loop host queryRegex serverPattern includeSchemas ((serverName, cl) # clients)
     (results, log) =
     (if \<not> matchesServerFilter host serverName serverPattern
      then searchTools_loop host queryRegex serverPattern includeSchemas clients (results, log)
      else (case c_listTools cl of
              Inl err \<Rightarrow>
                searchTools_loop host queryRegex serverPattern includeSchemas clients
                  (results, log @ [Contact serverName ListTools])
            | Inr tools \<Rightarrow>
                searchTools_loop host queryRegex serverPattern includeSchemas clients
                  (searchTools_push host queryRegex includeSchemas serverName tools results,
                   log @ [Contact serverName ListTools])))"

definition searchTools ::
  "'rx js_host \<Rightarrow> session \<Rightarrow> 'rx \<Rightarrow> string option \<Rightarrow> bool option \<Rightarrow> effect list \<Rightarrow>
   search_tool_result list \<times> effect list" where
  "searchTools host s queryRegex serverPattern includeSchemas log =
     searchTools_loop host queryRegex serverPattern includeSchemas
       (getMatchingClients host s serverPattern) ([], log)"

definition resourceResult :: "string \<Rightarrow> resource \<Rightarrow> search_resource_result" where
  "resourceResult serverName r =
     \<lparr>sr_server = serverName, sr_uri = res_uri r, sr_name = res_name r,
      sr_description = res_description r, sr_mimeType = res_mimeType r\<rparr>"

definition resource_kept :: "'rx js_host \<Rightarrow> 'rx \<Rightarrow> resource \<Rightarrow> bool" where
  "resource_kept host queryRegex r =
     (matchesQuery host (Some (res_name r)) queryRegex \<or>
      matchesQuery host (Some (res_uri r)) queryRegex \<or>
      matchesQuery host (res_description r) queryRegex)"

fun searchResources_push ::
  "'rx js_host \<Rightarrow> 'rx \<Rightarrow> string \<Rightarrow> resource list \<Rightarrow>
   search_resource_result list \<Rightarrow> search_resource_result list" where
  "searchResources_push host queryRegex serverName [] results = results"
| "searchResources_push host queryRegex serverName (r # rs) results =
     (if resource_kept host queryRegex r
      then searchResources_push host queryRegex serverName rs
             (results @ [resourceResult serverName r])
      else searchResources_push host queryRegex serverName rs results)"

fun searchResources_loop ::
  "'rx js_host \<Rightarrow> 'rx \<Rightarrow> string option \<Rightarrow> (string \<times> client) list \<Rightarrow>
   search_resource_result list \<times> effect list \<Rightarrow> search_resource_result list \<times> effect list" where
  "searchResources_loop host queryRegex serverPattern [] st = st"
| "searchResources_loop host queryRegex serverPattern ((serverName, cl) # clients)
     (results, log) =
     (if \<not> matchesServerFilter host serverName serverPattern
      then searchResources_loop host queryRegex serverPattern clients (results, log)
      else (case c_listResources cl of
              Inl err \<Rightarrow>
                searchResources_loop host queryRegex serverPattern clients
                  (results, log @ [Contact serverName ListResources])
            | Inr resources \<Rightarrow>
                searchResources_loop host queryRegex serverPattern clients
                  (searchResources_push host queryRegex serverName resources results,
                   log @ [Contact serverName ListResources])))"

definition searchResources ::
  "'rx js_host \<Rightarrow> session \<Rightarrow> 'rx \<Rightarrow> string option \<Rightarrow> effect list \<Rightarrow>
   search_resource_result list \<times> effect list" where
  "searchResources host s queryRegex serverPattern log =
     searchResources_loop host queryRegex serverPattern
       (getMatchingClients host s serverPattern) ([], log)"

definition promptResult :: "string \<Rightarrow> prompt \<Rightarrow> search_prompt_result" where
  "promptResult serverName p =
     \<lparr>sp_server = serverName, sp_name = prompt_name p, sp_description = prompt_description p,
      sp_arguments =
        map_option (map (\<lambda>a. \<lparr>spa_name = arg_name a, spa_required = arg_required a\<rparr>))
          (prompt_arguments p)\<rparr>"

definition prompt_kept :: "'rx js_host \<Rightarrow> 'rx \<Rightarrow> prompt \<Rightarrow> bool" where
  "prompt_kept host queryRegex p =
     (matchesQuery host (Some (prompt_name p)) queryRegex \<or>
      matchesQuery host (prompt_description p) queryRegex)"

fun searchPrompts_push ::
  "'rx js_host \<Rightarrow> 'rx \<Rightarrow> string \<Rightarrow> prompt list \<Rightarrow>
   search_prompt_result list \<Rightarrow> search_prompt_result list" where
  "searchPrompts_push host queryRegex serverName [] results = results"
| "searchPrompts_push host queryRegex serverName (p # ps) results =
     (if prompt_kept host queryRegex p
      then searchPrompts_push host queryRegex serverName ps
             (results @ [promptResult serverName p])
      else searchPrompts_push host queryRegex serverName ps results)"

fun searchPrompts_loop ::
  "'rx js_host \<Rightarrow> 'rx \<Rightarrow> string option \<Rightarrow> (string \<times> client) list \<Rightarrow>
   search_prompt_result list \<times> effect list \<Rightarrow> search_prompt_result list \<times> effect list" where
  "searchPrompts_loop host queryRegex serverPattern [] st = st"
| "searchPrompts_loop host queryRegex serverPattern ((serverName, cl) # clients)
     (results, log) =
     (if \<not> matchesServerFilter host serverName serverPattern
      then searchPrompts_loop host queryRegex serverPattern clients (results, log)
      else (case c_listPrompts cl of
              Inl err \<Rightarrow>
                searchPrompts_loop host queryRegex serverPattern clients
                  (results, log @ [Contact serverName ListPrompts])
            | Inr prompts \<Rightarrow>
                searchPrompts_loop host queryRegex serverPattern clients
                  (searchPrompts_push host queryRegex serverName prompts results,
                   log @ [Contact serverName ListPrompts])))"

definition searchPrompts ::
  "'rx js_host \<Rightarrow> session \<Rightarrow> 'rx \<Rightarrow> string option \<Rightarrow> effect list \<Rightarrow>
   search_prompt_result list \<times> effect list" where
  "searchPrompts host s queryRegex serverPattern log =
     searchPrompts_loop host queryRegex serverPattern
       (getMatchingClients host s serverPattern) ([], log)"

text \<open>
  \<^verbatim>\<open>searchServers\<close>. Its list \<open>servers\<close> is the value of
  \<^verbatim>\<open>sessionManager.listServers(session.sessionId)\<close>; the session manager is not among the
  sources, so the list is a parameter. The capabilities come from the client of the
  session's connection of that name, and are all false when there is none.
\<close>

definition serverResult :: "session \<Rightarrow> server_info \<Rightarrow> search_server_result" where
  "serverResult s server =
     (let capabilities =
            (case getConnection s (info_name server) of
               None \<Rightarrow> None
             | Some conn \<Rightarrow>
                 (case conn_client conn of
                    None \<Rightarrow> None
                  | Some cl \<Rightarrow> Some (info_capabilities (c_info cl))))
      in \<lparr>ss_name = info_name server, ss_status = info_status server,
          ss_capabilities =
            \<lparr>cap_tools = (case capabilities of None \<Rightarrow> False | Some c \<Rightarrow> cap_tools c),
             cap_resources = (case capabilities of None \<Rightarrow> False | Some c \<Rightarrow> cap_resources c),
             cap_prompts = (case capabilities of None \<Rightarrow> False | Some c \<Rightarrow> cap_prompts c)\<rparr>\<rparr>)"

fun searchServers_loop ::
  "'rx js_host \<Rightarrow> session \<Rightarrow> 'rx \<Rightarrow> string option \<Rightarrow> server_info list \<Rightarrow>
   search_server_result list \<Rightarrow> search_server_result list" where
  "searchServers_loop host s queryRegex serverPattern [] results = results"
| "searchServers_loop host s queryRegex serverPattern (server # servers) results =
     (if \<not> matchesServerFilter host (info_name server) serverPattern
      then searchServers_loop host s queryRegex serverPattern servers results
      else if matchesQuery host (Some (info_name server)) queryRegex
      then searchServers_loop host s queryRegex serverPattern servers
             (results @ [serverResult s server])
      else searchServers_loop host s queryRegex serverPattern servers results)"

definition searchServers ::
  "'rx js_host \<Rightarrow> session \<Rightarrow> server_info list \<Rightarrow> 'rx \<Rightarrow> string option \<Rightarrow>
   search_server_result list" where
  "searchServers host s servers queryRegex serverPattern =
     searchServers_loop host s queryRegex serverPattern servers []"

subsection \<open>The search\<close>

text \<open>\<^verbatim>\<open>search\<close>: the four categories in the order of the source, each behind its test of
  \<^verbatim>\<open>type\<close>. The second component is the log of backends contacted.\<close>

definition search ::
  "'rx js_host \<Rightarrow> search_query \<Rightarrow> session \<Rightarrow> server_info list \<Rightarrow> effect list \<Rightarrow>
   search_result \<times> effect list" where
  "search host query s servers log =
     (case createQueryRegex host (sq_query query) of
        None \<Rightarrow> (empty_result, log)
      | Some queryRegex \<Rightarrow>
          (let ty = sq_type query;
               serverPattern = sq_server query;
               result = empty_result;
               (result, log) =
                 (if ty = Tools \<or> ty = All
                  then (let (ts, log') = searchTools host s queryRegex serverPattern
                                           (sq_includeSchemas query) log
                        in (result\<lparr>r_tools := Some ts\<rparr>, log'))
                  else (result, log));
               (result, log) =
                 (if ty = Resources \<or> ty = All
                  then (let (rs, log') = searchResources host s queryRegex serverPattern log
                        in (result\<lparr>r_resources := Some rs\<rparr>, log'))
                  else (result, log));
               (result, log) =
                 (if ty = Prompts \<or> ty = All
                  then (let (ps, log') = searchPrompts host s queryRegex serverPattern log
                        in (result\<lparr>r_prompts := Some ps\<rparr>, log'))
                  else (result, log));
               result =
                 (if ty = Servers \<or> ty = All
                  then result\<lparr>r_servers :=
                         Some (searchServers host s servers queryRegex serverPattern)\<rparr>
                  else result)
           in (result, log)))"

section \<open>The backend server registry: class ServerRegistry\<close>

subsection \<open>State\<close>

text \<open>A pending sampling or elicitation request. Its \<^verbatim>\<open>resolve\<close> and \<^verbatim>\<open>reject\<close> callbacks
  belong to the client that created it; calling \<^verbatim>\<open>reject\<close> is recorded as the effect
  \<open>Rejected\<close> with the kind, the \<^verbatim>\<open>id\<close> field of the request and the message of the
  error.\<close>

record pending_request =
  pr_id :: string
  pr_server :: string
  pr_timestamp :: nat
  pr_params :: string

text \<open>
  The fields of the class. A JavaScript \<^verbatim>\<open>Map\<close> iterates in insertion order and holds
  each key once, so it is an association list: \<^verbatim>\<open>get\<close> is \<open>map_of\<close>, \<^verbatim>\<open>set\<close> is
  \<open>AList.update\<close> (in place for a key that is present, at the end otherwise), \<^verbatim>\<open>delete\<close>
  is \<open>AList.delete\<close>. \<open>onServerStatusChange\<close> tells whether the callback was given;
  \<open>effects\<close> collects the outward effects in program order.
\<close>

record registry =
  clients :: "(string \<times> client) list"
  notifications :: "string list"
  logs :: "string list"
  pendingSamplingRequests :: "(string \<times> pending_request) list"
  pendingElicitationRequests :: "(string \<times> pending_request) list"
  onServerStatusChange :: bool
  requestTimeoutMs :: nat
  effects :: "effect list"

text \<open>The invariant of the three maps: no key occurs twice.\<close>

definition registry_maps_ok :: "registry \<Rightarrow> bool" where
  "registry_maps_ok reg =
     (distinct (map fst (clients reg)) \<and>
      distinct (map fst (pendingSamplingRequests reg)) \<and>
      distinct (map fst (pendingElicitationRequests reg)))"

text \<open>The constructor: \<^verbatim>\<open>options.requestTimeoutMs ?? 300000\<close>.\<close>

definition new_registry :: "bool \<Rightarrow> nat option \<Rightarrow> registry" where
  "new_registry statusCallback timeoutMs =
     \<lparr>clients = [], notifications = [], logs = [],
      pendingSamplingRequests = [], pendingElicitationRequests = [],
      onServerStatusChange = statusCallback,
      requestTimeoutMs = (case timeoutMs of None \<Rightarrow> 300000 | Some t \<Rightarrow> t),
      effects = []\<rparr>"

definition emit :: "effect \<Rightarrow> registry \<Rightarrow> registry" where
  "emit e reg = reg\<lparr>effects := effects reg @ [e]\<rparr>"

definition quoted :: "string \<Rightarrow> string" where
  "quoted n = [squote] @ n @ [squote]"

subsection \<open>Private helpers\<close>

text \<open>\<^verbatim>\<open>getConnectedClient\<close>: the two throws are the two \<open>Inl\<close>.\<close>

definition getConnectedClient :: "registry \<Rightarrow> string \<Rightarrow> string + client" where
  "getConnectedClient reg n =
     (case map_of (clients reg) n of
        None \<Rightarrow> Inl (''Server '' @ quoted n @ '' not found'')
      | Some cl \<Rightarrow>
          if \<not> isConnected cl then Inl (''Server '' @ quoted n @ '' is not connected'')
          else Inr cl)"

text \<open>\<^verbatim>\<open>handleStatusChange\<close>: the callback, when there is one and the client is
  registered, then \<^verbatim>\<open>console.error\<close> when an error text is given.\<close>

definition handleStatusChange :: "string \<Rightarrow> string \<Rightarrow> string option \<Rightarrow> registry \<Rightarrow> registry" where
  "handleStatusChange serverName status err reg =
     (let reg1 =
            (if onServerStatusChange reg
             then (case map_of (clients reg) serverName of
                     Some cl \<Rightarrow> emit (StatusCallback serverName (c_info cl)) reg
                   | None \<Rightarrow> reg)
             else reg)
      in case err of
           Some e \<Rightarrow> emit (ConsoleError (''['' @ serverName @ ''] '' @ status @ '': '' @ e)) reg1
         | None \<Rightarrow> reg1)"

text \<open>\<^verbatim>\<open>handleIncomingSamplingRequest\<close> and \<^verbatim>\<open>handleIncomingElicitationRequest\<close> store the
  request under its id. The timer they start belongs to real time and is left out.\<close>

definition handleIncomingSamplingRequest :: "pending_request \<Rightarrow> registry \<Rightarrow> registry" where
  "handleIncomingSamplingRequest request reg =
     reg\<lparr>pendingSamplingRequests :=
           AList.update (pr_id request) request (pendingSamplingRequests reg)\<rparr>"

definition handleIncomingElicitationRequest :: "pending_request \<Rightarrow> registry \<Rightarrow> registry" where
  "handleIncomingElicitationRequest request reg =
     reg\<lparr>pendingElicitationRequests :=
           AList.update (pr_id request) request (pendingElicitationRequests reg)\<rparr>"

text \<open>The callbacks \<^verbatim>\<open>onNotification\<close> and \<^verbatim>\<open>onLog\<close> that \<^verbatim>\<open>addServer\<close> hands to a client:
  \<^verbatim>\<open>push\<close> appends at the end of the buffer.\<close>

definition onNotification :: "registry \<Rightarrow> string \<Rightarrow> registry" where
  "onNotification reg notification = reg\<lparr>notifications := notifications reg @ [notification]\<rparr>"

definition onLog :: "registry \<Rightarrow> string \<Rightarrow> registry" where
  "onLog reg entry = reg\<lparr>logs := logs reg @ [entry]\<rparr>"

subsection \<open>Adding and removing servers\<close>

record server_config =
  cfg_name :: string
  cfg_url :: string

text \<open>Modelled from the spec: the constructor and \<^verbatim>\<open>connect()\<close> of \<^verbatim>\<open>MCPHttpClient\<close>
  (client.js), which is missing from the sources. By section 3 a connection is created
  when a server is added and carries a status among connected, disconnected,
  reconnecting and error. A new client answers as its backend does, is named after its
  configuration and is not connected yet; \<^verbatim>\<open>connect()\<close> either succeeds, and the status is
  connected, or throws an error, and the status is the error status that the comment in
  \<^verbatim>\<open>addServer\<close> says the user can then see.\<close>

definition MCPHttpClient_new :: "server_config \<Rightarrow> client \<Rightarrow> client" where
  "MCPHttpClient_new config backend =
     backend\<lparr>c_info := (c_info backend)\<lparr>info_name := cfg_name config, info_status := Disconnected\<rparr>\<rparr>"

definition client_connect :: "string option \<Rightarrow> client \<Rightarrow> string option \<times> client" where
  "client_connect outcome cl =
     (case outcome of
        None \<Rightarrow> (None, cl\<lparr>c_info := (c_info cl)\<lparr>info_status := Connected\<rparr>\<rparr>)
      | Some message \<Rightarrow> (Some message, cl\<lparr>c_info := (c_info cl)\<lparr>info_status := Error\<rparr>\<rparr>))"

definition hasServer :: "registry \<Rightarrow> string \<Rightarrow> bool" where
  "hasServer reg n = (map_of (clients reg) n \<noteq> None)"

definition getServer :: "registry \<Rightarrow> string \<Rightarrow> server_info option" where
  "getServer reg n = map_option c_info (map_of (clients reg) n)"

definition listServers :: "registry \<Rightarrow> server_info list" where
  "listServers reg = map (\<lambda>(n, cl). c_info cl) (clients reg)"

text \<open>
  \<^verbatim>\<open>addServer\<close>. \<open>backend\<close> is what the new server answers and \<open>outcome\<close> the error
  that \<^verbatim>\<open>client.connect()\<close> throws, if any. The result is \<open>Inl\<close> for a thrown error and
  \<open>Inr ()\<close> for a normal return, with the registry as the call leaves it.
\<close>

definition addServer ::
  "server_config \<Rightarrow> client \<Rightarrow> string option \<Rightarrow> registry \<Rightarrow> (string + unit) \<times> registry" where
  "addServer config backend outcome reg =
     (if map_of (clients reg) (cfg_name config) \<noteq> None
      then (Inl (''Server '' @ quoted (cfg_name config) @ '' already exists''), reg)
      else
        (let cl = MCPHttpClient_new config backend;
             reg1 = reg\<lparr>clients := AList.update (cfg_name config) cl (clients reg)\<rparr>;
             (thrown, cl') = client_connect outcome cl;
             reg2 = emit (Contact (cfg_name config) Connect)
                      (reg1\<lparr>clients := AList.update (cfg_name config) cl' (clients reg1)\<rparr>)
         in case thrown of
              None \<Rightarrow> (Inr (), reg2)
            | Some message \<Rightarrow>
                (Inr (), handleStatusChange (cfg_name config) ''error'' (Some message) reg2)))"

text \<open>The two loops of \<^verbatim>\<open>removeServer\<close> over the entries of a pending map: a request of
  the server is rejected and deleted, the others are passed over.\<close>

fun removeServer_sampling ::
  "string \<Rightarrow> (string \<times> pending_request) list \<Rightarrow> registry \<Rightarrow> registry" where
  "removeServer_sampling n [] reg = reg"
| "removeServer_sampling n ((rid, request) # entries) reg =
     (if pr_server request = n
      then removeServer_sampling n entries
             ((emit (Rejected Sampling (pr_id request) (''Server '' @ quoted n @ '' disconnected'')) reg)
                \<lparr>pendingSamplingRequests := AList.delete rid (pendingSamplingRequests reg)\<rparr>)
      else removeServer_sampling n entries reg)"

fun removeServer_elicitation ::
  "string \<Rightarrow> (string \<times> pending_request) list \<Rightarrow> registry \<Rightarrow> registry" where
  "removeServer_elicitation n [] reg = reg"
| "removeServer_elicitation n ((rid, request) # entries) reg =
     (if pr_server request = n
      then removeServer_elicitation n entries
             ((emit (Rejected Elicitation (pr_id request) (''Server '' @ quoted n @ '' disconnected'')) reg)
                \<lparr>pendingElicitationRequests := AList.delete rid (pendingElicitationRequests reg)\<rparr>)
      else removeServer_elicitation n entries reg)"

text \<open>\<^verbatim>\<open>removeServer\<close>: when \<^verbatim>\<open>client.disconnect()\<close> throws, the error leaves the method
  before \<^verbatim>\<open>this.clients.delete(name)\<close>.\<close>

definition removeServer :: "string \<Rightarrow> registry \<Rightarrow> (string + unit) \<times> registry" where
  "removeServer n reg =
     (case map_of (clients reg) n of
        None \<Rightarrow> (Inl (''Server '' @ quoted n @ '' not found''), reg)
      | Some cl \<Rightarrow>
          (let reg1 = removeServer_sampling n (pendingSamplingRequests reg) reg;
               reg2 = removeServer_elicitation n (pendingElicitationRequests reg1) reg1;
               reg3 = emit (Contact n Disconnect) reg2
           in case c_disconnect cl of
                Some err \<Rightarrow> (Inl err, reg3)
              | None \<Rightarrow> (Inr (), reg3\<lparr>clients := AList.delete n (clients reg3)\<rparr>)))"

subsection \<open>Shutdown\<close>

fun shutdown_reject :: "pending_kind \<Rightarrow> (string \<times> pending_request) list \<Rightarrow> registry \<Rightarrow> registry" where
  "shutdown_reject kind [] reg = reg"
| "shutdown_reject kind ((rid, request) # entries) reg =
     shutdown_reject kind entries (emit (Rejected kind (pr_id request) ''Registry shutting down'') reg)"

fun shutdown_disconnect :: "(string \<times> client) list \<Rightarrow> registry \<Rightarrow> registry" where
  "shutdown_disconnect [] reg = reg"
| "shutdown_disconnect ((n, cl) # rest) reg = shutdown_disconnect rest (emit (Contact n Disconnect) reg)"

text \<open>\<^verbatim>\<open>shutdown\<close>: both pending maps are rejected and cleared, then every client is asked to
  disconnect; \<^verbatim>\<open>await Promise.all\<close> throws when a disconnect fails, before the clients and
  the buffers are cleared. The error reported is that of the first failing client in
  iteration order.\<close>

definition shutdown :: "registry \<Rightarrow> (string + unit) \<times> registry" where
  "shutdown reg =
     (let reg1 = shutdown_reject Sampling (pendingSamplingRequests reg) reg;
          reg2 = reg1\<lparr>pendingSamplingRequests := []\<rparr>;
          reg3 = shutdown_reject Elicitation (pendingElicitationRequests reg2) reg2;
          reg4 = reg3\<lparr>pendingElicitationRequests := []\<rparr>;
          reg5 = shutdown_disconnect (clients reg4) reg4
      in case List.map_filter (\<lambda>(n, cl). c_disconnect cl) (clients reg5) of
           err # errs \<Rightarrow> (Inl err, reg5)
         | [] \<Rightarrow> (Inr (), reg5\<lparr>clients := [], notifications := [], logs := []\<rparr>))"

subsection \<open>Listing and targeted calls\<close>

text \<open>A listed item with the \<^verbatim>\<open>server\<close> it is tagged with: \<^verbatim>\<open>{ ...tool, server: name }\<close>.\<close>

record 'a tagged =
  tag_server :: string
  tag_item :: 'a

fun push_tagged :: "string \<Rightarrow> 'a list \<Rightarrow> 'a tagged list \<Rightarrow> 'a tagged list" where
  "push_tagged n [] items = items"
| "push_tagged n (x # xs) items = push_tagged n xs (items @ [\<lparr>tag_server = n, tag_item = x\<rparr>])"

text \<open>
  The four list methods \<^verbatim>\<open>listTools\<close>, \<^verbatim>\<open>listResources\<close>, \<^verbatim>\<open>listResourceTemplates\<close> and
  \<^verbatim>\<open>listPrompts\<close> have one body up to the client method they call, here \<open>get\<close>, with
  \<open>rq\<close> the request it sends. \<open>list_fanout\<close> is the loop of the \<^verbatim>\<open>else\<close> branch over
  \<^verbatim>\<open>this.clients\<close>; \<open>list_of\<close> is the whole method.
\<close>

fun list_fanout ::
  "(client \<Rightarrow> string + 'a list) \<Rightarrow> request \<Rightarrow> (string \<times> client) list \<Rightarrow>
   'a tagged list \<times> registry \<Rightarrow> 'a tagged list \<times> registry" where
  "list_fanout get rq [] st = st"
| "list_fanout get rq ((n, cl) # rest) (items, reg) =
     (if isConnected cl
      then (case get cl of
              Inl err \<Rightarrow> list_fanout get rq rest (items, emit (Contact n rq) reg)
            | Inr xs \<Rightarrow> list_fanout get rq rest (push_tagged n xs items, emit (Contact n rq) reg))
      else list_fanout get rq rest (items, reg))"

definition list_of ::
  "(client \<Rightarrow> string + 'a list) \<Rightarrow> request \<Rightarrow> string option \<Rightarrow> registry \<Rightarrow>
   (string + 'a tagged list) \<times> registry" where
  "list_of get rq serverName reg =
     (case serverName of
        Some sn \<Rightarrow>
          (case getConnectedClient reg sn of
             Inl err \<Rightarrow> (Inl err, reg)
           | Inr cl \<Rightarrow>
               (case get cl of
                  Inl err \<Rightarrow> (Inl err, emit (Contact sn rq) reg)
                | Inr xs \<Rightarrow> (Inr (push_tagged sn xs []), emit (Contact sn rq) reg)))
      | None \<Rightarrow>
          (let (items, reg') = list_fanout get rq (clients reg) ([], reg)
           in (Inr items, reg')))"

definition listTools :: "string option \<Rightarrow> registry \<Rightarrow> (string + tool tagged list) \<times> registry" where
  "listTools = list_of c_listTools ListTools"

definition listResources ::
  "string option \<Rightarrow> registry \<Rightarrow> (string + resource tagged list) \<times> registry" where
  "listResources = list_of c_listResources ListResources"

definition listResourceTemplates ::
  "string option \<Rightarrow> registry \<Rightarrow> (string + resource_template tagged list) \<times> registry" where
  "listResourceTemplates = list_of c_listResourceTemplates ListResourceTemplates"

definition listPrompts ::
  "string option \<Rightarrow> registry \<Rightarrow> (string + prompt tagged list) \<times> registry" where
  "listPrompts = list_of c_listPrompts ListPrompts"

text \<open>The targeted calls; an omitted \<^verbatim>\<open>args\<close> is \<^verbatim>\<open>{}\<close>.\<close>

definition executeTool ::
  "string \<Rightarrow> string \<Rightarrow> string option \<Rightarrow> registry \<Rightarrow> (string + string) \<times> registry" where
  "executeTool serverName toolName args reg =
     (let a = (case args of None \<Rightarrow> ''{}'' | Some a \<Rightarrow> a)
      in case getConnectedClient reg serverName of
           Inl err \<Rightarrow> (Inl err, reg)
         | Inr cl \<Rightarrow> (c_callTool cl toolName a, emit (Contact serverName (CallTool toolName a)) reg))"

definition readResource :: "string \<Rightarrow> string \<Rightarrow> registry \<Rightarrow> (string + string) \<times> registry" where
  "readResource serverName uri reg =
     (case getConnectedClient reg serverName of
        Inl err \<Rightarrow> (Inl err, reg)
      | Inr cl \<Rightarrow> (c_readResource cl uri, emit (Contact serverName (ReadResource uri)) reg))"

definition getPrompt ::
  "string \<Rightarrow> string \<Rightarrow> string option \<Rightarrow> registry \<Rightarrow> (string + string) \<times> registry" where
  "getPrompt serverName promptName args reg =
     (let a = (case args of None \<Rightarrow> ''{}'' | Some a \<Rightarrow> a)
      in case getConnectedClient reg serverName of
           Inl err \<Rightarrow> (Inl err, reg)
         | Inr cl \<Rightarrow>
             (c_getPrompt cl promptName a, emit (Contact serverName (GetPrompt promptName a)) reg))"

subsection \<open>Draining the buffers\<close>

definition getNotifications :: "registry \<Rightarrow> string list \<times> registry" where
  "getNotifications reg = (notifications reg, reg\<lparr>notifications := []\<rparr>)"

definition getNotificationCount :: "registry \<Rightarrow> nat" where
  "getNotificationCount reg = length (notifications reg)"

definition getLogs :: "registry \<Rightarrow> string list \<times> registry" where
  "getLogs reg = (logs reg, reg\<lparr>logs := []\<rparr>)"

definition getLogCount :: "registry \<Rightarrow> nat" where
  "getLogCount reg = length (logs reg)"

section \<open>The Capability API and its call accounting\<close>

text \<open>
  The object \<^verbatim>\<open>mcp\<close> is built by api-bindings.js and sandbox.js, which are not among the
  sources; the tests (test/codemode.test.ts, MCP Call Limits) drive it through
  \<^verbatim>\<open>executeSandbox\<close>. This section follows sections 3 and 4.1 of the spec.
\<close>

datatype api_call =
    ListServersCall
  | ListToolsCall "string option"
  | CallToolCall string string "string option"
  | ListResourcesCall "string option"
  | ListResourceTemplatesCall "string option"
  | ReadResourceCall string string
  | ListPromptsCall "string option"
  | GetPromptCall string string "string option"
  | SleepCall int
  | LogCall "string list"

text \<open>Modelled from the spec: the column Billable of the table of section 4.1;
  api-bindings.js is missing from the sources.\<close>

fun billable :: "api_call \<Rightarrow> bool" where
  "billable (SleepCall ms) = False"
| "billable (LogCall vals) = False"
| "billable c = True"

record sandbox_config =
  timeoutMs :: nat
  maxMcpCalls :: nat
  maxCodeLength :: nat

text \<open>Modelled from the spec: the \<^verbatim>\<open>ExecutionContext\<close> of section 3 (sandbox.js is missing
  from the sources), with the calls that were passed on to the registry in order.\<close>

record execution_context =
  ctx_config :: sandbox_config
  callCount :: nat
  ctx_logs :: "string list"
  startedAt :: nat
  registry_calls :: "api_call list"

definition digit_char :: "nat \<Rightarrow> char" where
  "digit_char d = (''0123456789'' ! d)"

text \<open>The decimal text of a number, as \<^verbatim>\<open>"(" + maxMcpCalls + ")"\<close> produces it.\<close>

function string_of_nat :: "nat \<Rightarrow> string" where
  "string_of_nat n =
     (if n < 10 then [digit_char n] else string_of_nat (n div 10) @ [digit_char (n mod 10)])"
  by pat_completeness auto
termination
  by (relation "measure (\<lambda>n. n)") auto

definition call_limit_message :: "nat \<Rightarrow> string" where
  "call_limit_message limit = ''Maximum mcp.* call limit exceeded ('' @ string_of_nat limit @ '')''"

fun join_space :: "string list \<Rightarrow> string" where
  "join_space [] = []"
| "join_space [v] = v"
| "join_space (v # w # vs) = v @ '' '' @ join_space (w # vs)"

text \<open>Modelled from the spec: the accounting protocol of section 4.1 (api-bindings.js is
  missing from the sources). A billable method pre-increments \<^verbatim>\<open>callCount\<close> before any
  work; if the post-increment value exceeds \<^verbatim>\<open>maxMcpCalls\<close> it fails with the call limit
  error and does not contact the registry; otherwise it proxies to the registry, whose
  answer \<open>answer c\<close> is a value or a thrown error. \<^verbatim>\<open>sleep\<close> and \<^verbatim>\<open>log\<close> are free:
  \<^verbatim>\<open>sleep\<close> only delays, \<^verbatim>\<open>log\<close> appends its values, joined by spaces, to the logs.\<close>

definition invoke ::
  "(api_call \<Rightarrow> string + string) \<Rightarrow> api_call \<Rightarrow> execution_context \<Rightarrow>
   (string + string) \<times> execution_context" where
  "invoke answer c ctx =
     (if billable c
      then (let ctx1 = ctx\<lparr>callCount := callCount ctx + 1\<rparr>
            in if callCount ctx1 > maxMcpCalls (ctx_config ctx1)
               then (Inl (call_limit_message (maxMcpCalls (ctx_config ctx1))), ctx1)
               else (answer c, ctx1\<lparr>registry_calls := registry_calls ctx1 @ [c]\<rparr>))
      else (case c of
              LogCall vals \<Rightarrow> (Inr ''undefined'', ctx\<lparr>ctx_logs := ctx_logs ctx @ [join_space vals]\<rparr>)
            | _ \<Rightarrow> (Inr ''undefined'', ctx)))"

text \<open>Modelled from the spec: an execution, seen from the API, is the sequence of the
  invocations that began, in program order (section 5: within one execution the calls
  observe program order); \<^verbatim>\<open>stats.mcpCalls\<close> of the envelope is the \<^verbatim>\<open>callCount\<close> of the
  context when the execution ends.\<close>

fun invoke_all ::
  "(api_call \<Rightarrow> string + string) \<Rightarrow> api_call list \<Rightarrow> execution_context \<Rightarrow> execution_context" where
  "invoke_all answer [] ctx = ctx"
| "invoke_all answer (c # cs) ctx = invoke_all answer cs (snd (invoke answer c ctx))"

definition new_context :: "sandbox_config \<Rightarrow> string list \<Rightarrow> nat \<Rightarrow> execution_context" where
  "new_context cfg initialLogs now =
     \<lparr>ctx_config = cfg, callCount = 0, ctx_logs = initialLogs, startedAt = now, registry_calls = []\<rparr>"

definition stats_mcpCalls :: "execution_context \<Rightarrow> nat" where
  "stats_mcpCalls ctx = callCount ctx"

section \<open>A small concrete host\<close>

text \<open>
  For evaluating the functions on concrete inputs: a host whose regular expressions are
  the fragment of the JavaScript syntax made of literal characters, escaped
  metacharacters, the wildcard \<^verbatim>\<open>.\<close> and the anchors \<^verbatim>\<open>^\<close> and \<^verbatim>\<open>$\<close>. A pattern
  with a trailing backslash or an unescaped group, class, quantifier or alternation is
  refused, and so is a pattern of more than 32 characters, in the way an engine refuses
  a pattern that is too large. Letters are compared without regard to case.
\<close>

datatype toy_atom = Lit char | AnyChar | Bol | Eol

definition ascii_lower :: "char \<Rightarrow> char" where
  "ascii_lower c =
     (case map_of (zip ''ABCDEFGHIJKLMNOPQRSTUVWXYZ'' ''abcdefghijklmnopqrstuvwxyz'') c of
        None \<Rightarrow> c
      | Some d \<Rightarrow> d)"

fun toy_parse :: "string \<Rightarrow> toy_atom list option" where
  "toy_parse [] = Some []"
| "toy_parse [c] =
     (if c = CHR ''.'' then Some [AnyChar]
      else if c = CHR ''^'' then Some [Bol]
      else if c = CHR ''$'' then Some [Eol]
      else if c \<in> set metachars then None
      else Some [Lit c])"
| "toy_parse (c # d # cs) =
     (if c = backslash
      then (if d \<in> set metachars then map_option ((#) (Lit d)) (toy_parse cs) else None)
      else if c = CHR ''.'' then map_option ((#) AnyChar) (toy_parse (d # cs))
      else if c = CHR ''^'' then map_option ((#) Bol) (toy_parse (d # cs))
      else if c = CHR ''$'' then map_option ((#) Eol) (toy_parse (d # cs))
      else if c \<in> set metachars then None
      else map_option ((#) (Lit c)) (toy_parse (d # cs)))"

definition toy_RegExp :: "string \<Rightarrow> toy_atom list option" where
  "toy_RegExp p = (if length p > 32 then None else toy_parse p)"

fun toy_here :: "toy_atom list \<Rightarrow> string \<Rightarrow> bool \<Rightarrow> bool" where
  "toy_here [] s at_start = True"
| "toy_here (Bol # as) s at_start = (at_start \<and> toy_here as s at_start)"
| "toy_here (Eol # as) s at_start = (s = [] \<and> toy_here as s at_start)"
| "toy_here (Lit c # as) [] at_start = False"
| "toy_here (Lit c # as) (d # ds) at_start =
     (ascii_lower c = ascii_lower d \<and> toy_here as ds False)"
| "toy_here (AnyChar # as) [] at_start = False"
| "toy_here (AnyChar # as) (d # ds) at_start =
     (d \<noteq> CHR 0x0A \<and> d \<noteq> CHR 0x0D \<and> toy_here as ds False)"

fun toy_from :: "toy_atom list \<Rightarrow> string \<Rightarrow> bool \<Rightarrow> bool" where
  "toy_from as [] at_start = toy_here as [] at_start"
| "toy_from as (c # cs) at_start = (toy_here as (c # cs) at_start \<or> toy_from as cs False)"

definition toy_test :: "toy_atom list \<Rightarrow> string \<Rightarrow> bool" where
  "toy_test regex s = toy_from regex s True"

definition toy_host :: "toy_atom list js_host" where
  "toy_host = \<lparr>RegExp_i = toy_RegExp, rx_test = toy_test, toLowerCase = map ascii_lower\<rparr>"

section \<open>Notions used in the statements\<close>

text \<open>The servers a search fans out to: the clients that \<^verbatim>\<open>getMatchingClients\<close> returns and
  that the loop does not pass over with \<^verbatim>\<open>continue\<close>.\<close>

definition fanout_targets :: "'rx js_host \<Rightarrow> session \<Rightarrow> string option \<Rightarrow> (string \<times> client) list" where
  "fanout_targets host s serverPattern =
     filter (\<lambda>(n, cl). matchesServerFilter host n serverPattern)
       (getMatchingClients host s serverPattern)"

text \<open>Every backend of the session fails: each of the three enumerations of each client
  throws.\<close>

definition every_backend_fails :: "session \<Rightarrow> bool" where
  "every_backend_fails s =
     list_all (\<lambda>(n, conn). case conn_client conn of
                               None \<Rightarrow> True
                             | Some cl \<Rightarrow> isl (c_listTools cl) \<and> isl (c_listResources cl) \<and>
                                         isl (c_listPrompts cl))
       (backendConnections s)"

text \<open>The session without the connections whose client is \<open>bad\<close>.\<close>

definition without_clients :: "(client \<Rightarrow> bool) \<Rightarrow> session \<Rightarrow> session" where
  "without_clients bad s =
     s\<lparr>backendConnections :=
         filter (\<lambda>(n, conn). case conn_client conn of None \<Rightarrow> True | Some cl \<Rightarrow> \<not> bad cl)
           (backendConnections s)\<rparr>"

text \<open>The registered clients whose status is connected, in iteration order.\<close>

definition connected_clients :: "registry \<Rightarrow> (string \<times> client) list" where
  "connected_clients reg = filter (\<lambda>(n, cl). info_status (c_info cl) = Connected) (clients reg)"

section \<open>Concrete inputs\<close>

text \<open>A query of 33 characters, which the small host refuses with and without
  escaping, and a session without connections.\<close>

definition too_long :: string where
  "too_long = replicate 33 (CHR ''a'')"

definition no_session :: session where
  "no_session = \<lparr>sessionId = ''s'', backendConnections = []\<rparr>"

text \<open>Three backends: \<open>db\<close> is connected and answers, \<open>cache\<close> is disconnected, and
  \<open>files\<close> is connected but each of its methods throws.\<close>

definition db_client :: client where
  "db_client =
     \<lparr>c_info = \<lparr>info_name = ''db'', info_status = Connected,
                info_capabilities = \<lparr>cap_tools = True, cap_resources = True, cap_prompts = False\<rparr>\<rparr>,
      c_listTools = Inr [\<lparr>tool_name = ''query'', tool_description = Some ''Run SQL'',
                          tool_inputSchema = ''{}''\<rparr>],
      c_listResources = Inr [\<lparr>res_uri = ''file:///notes'', res_name = ''notes'',
                              res_description = Some [], res_mimeType = None\<rparr>],
      c_listResourceTemplates = Inr [],
      c_listPrompts = Inl ''Method not found'',
      c_callTool = (\<lambda>t a. Inr (''ran '' @ t)),
      c_readResource = (\<lambda>u. Inl ''no such resource''),
      c_getPrompt = (\<lambda>p a. Inl ''Method not found''),
      c_disconnect = None\<rparr>"

definition cache_client :: client where
  "cache_client =
     \<lparr>c_info = \<lparr>info_name = ''cache'', info_status = Disconnected,
                info_capabilities = \<lparr>cap_tools = True, cap_resources = False, cap_prompts = False\<rparr>\<rparr>,
      c_listTools = Inr [\<lparr>tool_name = ''get'', tool_description = Some ''Read a cached SQL row'',
                          tool_inputSchema = ''{}''\<rparr>],
      c_listResources = Inr [],
      c_listResourceTemplates = Inr [],
      c_listPrompts = Inr [],
      c_callTool = (\<lambda>t a. Inr ''hit''),
      c_readResource = (\<lambda>u. Inl ''no such resource''),
      c_getPrompt = (\<lambda>p a. Inl ''Method not found''),
      c_disconnect = None\<rparr>"

definition files_client :: client where
  "files_client =
     \<lparr>c_info = \<lparr>info_name = ''files'', info_status = Connected,
                info_capabilities = \<lparr>cap_tools = True, cap_resources = True, cap_prompts = True\<rparr>\<rparr>,
      c_listTools = Inl ''timeout'',
      c_listResources = Inl ''timeout'',
      c_listResourceTemplates = Inl ''timeout'',
      c_listPrompts = Inl ''timeout'',
      c_callTool = (\<lambda>t a. Inl ''timeout''),
      c_readResource = (\<lambda>u. Inl ''timeout''),
      c_getPrompt = (\<lambda>p a. Inl ''timeout''),
      c_disconnect = Some ''socket hang up''\<rparr>"

definition session3 :: session where
  "session3 =
     \<lparr>sessionId = ''s1'',
      backendConnections =
        [(''db'', \<lparr>conn_status = Connected, conn_client = Some db_client\<rparr>),
         (''cache'', \<lparr>conn_status = Disconnected, conn_client = Some cache_client\<rparr>),
         (''files'', \<lparr>conn_status = Connected, conn_client = Some files_client\<rparr>)]\<rparr>"

definition servers3 :: "server_info list" where
  "servers3 = [c_info db_client, c_info cache_client, c_info files_client]"

definition failing_session :: session where
  "failing_session =
     \<lparr>sessionId = ''s2'',
      backendConnections = [(''files'', \<lparr>conn_status = Connected, conn_client = Some files_client\<rparr>)]\<rparr>"

definition query_of :: "string \<Rightarrow> search_type \<Rightarrow> search_query" where
  "query_of q ty = \<lparr>sq_query = q, sq_type = ty, sq_server = None, sq_includeSchemas = None\<rparr>"

definition request_of :: "string \<Rightarrow> string \<Rightarrow> string \<times> pending_request" where
  "request_of rid srv = (rid, \<lparr>pr_id = rid, pr_server = srv, pr_timestamp = 0, pr_params = ''{}''\<rparr>)"

definition registry3 :: registry where
  "registry3 =
     \<lparr>clients = [(''db'', db_client), (''cache'', cache_client), (''files'', files_client)],
      notifications = [''n1'', ''n2''], logs = [''l1''],
      pendingSamplingRequests =
        [request_of ''s1'' ''db'', request_of ''s2'' ''files'', request_of ''s3'' ''db''],
      pendingElicitationRequests = [request_of ''e1'' ''files'', request_of ''e2'' ''db''],
      onServerStatusChange = False, requestTimeoutMs = 300000, effects = []\<rparr>"

definition db_config :: server_config where
  "db_config = \<lparr>cfg_name = ''db'', cfg_url = ''http://localhost:3000/mcp''\<rparr>"

text \<open>The configuration of the test "enforces mcp call limit", a registry that answers
  every call with an empty list, and the context after five billable calls.\<close>

definition cfg5 :: sandbox_config where
  "cfg5 = \<lparr>timeoutMs = 30000, maxMcpCalls = 5, maxCodeLength = 100000\<rparr>"

definition mock_answer :: "api_call \<Rightarrow> string + string" where
  "mock_answer c = Inr ''[]''"

definition ctx5 :: execution_context where
  "ctx5 =
     invoke_all mock_answer
       [ListServersCall, ListServersCall, ListServersCall, ListServersCall, ListServersCall]
       (new_context cfg5 [] 0)"

section \<open>Properties of the search\<close>

subsection \<open>Parsing the query\<close>

lemma escapeRegExp_Nil: "escapeRegExp [] = []"
  by (simp add: escapeRegExp_def)

lemma escapeRegExp_Cons:
  "escapeRegExp (c # cs) =
     (if c \<in> set metachars then backslash # c # escapeRegExp cs else c # escapeRegExp cs)"
  by (simp add: escapeRegExp_def)

lemma set_metachars:
  "set metachars =
     {CHR ''.'', CHR ''*'', CHR ''+'', CHR ''?'', CHR ''^'', CHR ''$'', CHR ''{'', CHR ''}'',
      CHR ''('', CHR '')'', CHR ''|'', CHR ''['', CHR '']'', CHR 0x5C}"
  by (auto simp add: metachars_def backslash_def)

lemma createQueryRegex_eq:
  "createQueryRegex host q =
     (case RegExp_i host q of Some r \<Rightarrow> Some r | None \<Rightarrow> RegExp_i host (escapeRegExp q))"
  by (simp add: createQueryRegex_def split: option.splits)

lemma search_unparsable:
  "createQueryRegex host (sq_query query) = None \<Longrightarrow>
   search host query s servers log = (empty_result, log)"
  by (simp add: search_def)

text \<open>
  Claim C2. The query is first compiled as a case-insensitive regular expression; when
  that throws, every character among \<^verbatim>\<open>. * + ? ^ $ { } ( ) | [ ] \\<close> is preceded by a
  backslash and the result is compiled instead; when that throws too, \<^verbatim>\<open>search\<close> returns
  the result without any category key, whatever the requested type, and contacts no
  backend.
\<close>

theorem search_query_parsing:
  "createQueryRegex host q =
     (case RegExp_i host q of Some r \<Rightarrow> Some r | None \<Rightarrow> RegExp_i host (escapeRegExp q))
   \<and> escapeRegExp [] = []
   \<and> escapeRegExp (c # cs) =
       (if c \<in> {CHR ''.'', CHR ''*'', CHR ''+'', CHR ''?'', CHR ''^'', CHR ''$'', CHR ''{'',
                 CHR ''}'', CHR ''('', CHR '')'', CHR ''|'', CHR ''['', CHR '']'', CHR 0x5C}
        then CHR 0x5C # c # escapeRegExp cs else c # escapeRegExp cs)
   \<and> (RegExp_i host (sq_query query) = None \<longrightarrow>
        RegExp_i host (escapeRegExp (sq_query query)) = None \<longrightarrow>
        search host query s servers log = (empty_result, log)
        \<and> r_tools (fst (search host query s servers log)) = None
        \<and> r_resources (fst (search host query s servers log)) = None
        \<and> r_prompts (fst (search host query s servers log)) = None
        \<and> r_servers (fst (search host query s servers log)) = None)"
proof -
  have esc: "escapeRegExp (c # cs) =
       (if c \<in> {CHR ''.'', CHR ''*'', CHR ''+'', CHR ''?'', CHR ''^'', CHR ''$'', CHR ''{'',
                 CHR ''}'', CHR ''('', CHR '')'', CHR ''|'', CHR ''['', CHR '']'', CHR 0x5C}
        then CHR 0x5C # c # escapeRegExp cs else c # escapeRegExp cs)"
    unfolding escapeRegExp_Cons set_metachars backslash_def by (rule refl)
  have un: "RegExp_i host (sq_query query) = None \<longrightarrow>
        RegExp_i host (escapeRegExp (sq_query query)) = None \<longrightarrow>
        search host query s servers log = (empty_result, log)
        \<and> r_tools (fst (search host query s servers log)) = None
        \<and> r_resources (fst (search host query s servers log)) = None
        \<and> r_prompts (fst (search host query s servers log)) = None
        \<and> r_servers (fst (search host query s servers log)) = None"
  proof (intro impI)
    assume a: "RegExp_i host (sq_query query) = None"
      and b: "RegExp_i host (escapeRegExp (sq_query query)) = None"
    have "createQueryRegex host (sq_query query) = None"
      by (simp add: createQueryRegex_eq a b)
    then have "search host query s servers log = (empty_result, log)"
      by (rule search_unparsable)
    then show "search host query s servers log = (empty_result, log)
        \<and> r_tools (fst (search host query s servers log)) = None
        \<and> r_resources (fst (search host query s servers log)) = None
        \<and> r_prompts (fst (search host query s servers log)) = None
        \<and> r_servers (fst (search host query s servers log)) = None"
      by (simp add: empty_result_def)
  qed
  from createQueryRegex_eq escapeRegExp_Nil esc un show ?thesis by blast
qed

lemma toy_too_long: "RegExp_i toy_host too_long = None"
  by (simp add: toy_host_def toy_RegExp_def too_long_def)

lemma toy_too_long_escaped: "RegExp_i toy_host (escapeRegExp too_long) = None"
  by code_simp

theorem search_query_parsing_witness:
  "RegExp_i toy_host too_long = None \<and> RegExp_i toy_host (escapeRegExp too_long) = None \<and>
   search toy_host \<lparr>sq_query = too_long, sq_type = All, sq_server = None, sq_includeSchemas = None\<rparr>
     no_session [] [] = (empty_result, [])"
  using search_query_parsing [of toy_host too_long "CHR ''a''" "[]"
     "\<lparr>sq_query = too_long, sq_type = All, sq_server = None, sq_includeSchemas = None\<rparr>"
     no_session "[]" "[]"]
    toy_too_long toy_too_long_escaped
  by simp

subsection \<open>The server filter\<close>

text \<open>
  Claim C6. A server pattern is compiled as a case-insensitive regular expression and
  tested on the server name; when compiling throws, the server matches exactly when its
  name equals the pattern after lower-casing both, and the pattern is never escaped and
  compiled again. An absent pattern matches every server. \<^verbatim>\<open>matchesServerFilter\<close> answers
  true for the empty pattern without compiling it, which is what the regular expression
  answers on a host whose empty pattern matches every string, as JavaScript's does.
\<close>

theorem matchesServerFilter_pattern:
  assumes "p = [] \<Longrightarrow> \<exists>r. RegExp_i host [] = Some r \<and> (\<forall>t. rx_test host r t)"
  shows "matchesServerFilter host n None = True
   \<and> matchesServerFilter host n (Some p) =
       (case RegExp_i host p of
          Some regex \<Rightarrow> rx_test host regex n
        | None \<Rightarrow> toLowerCase host n = toLowerCase host p)
   \<and> (RegExp_i host p = None \<longrightarrow>
        matchesServerFilter host n (Some p) = (toLowerCase host n = toLowerCase host p))"
proof (cases "p = []")
  case True
  with assms obtain r where "RegExp_i host [] = Some r" and "\<forall>t. rx_test host r t" by blast
  with True show ?thesis by (simp add: matchesServerFilter_def)
next
  case False
  then show ?thesis by (simp add: matchesServerFilter_def)
qed

lemma toy_empty_pattern: "\<exists>r. RegExp_i toy_host [] = Some r \<and> (\<forall>t. rx_test toy_host r t)"
proof -
  have "toy_from [] t b" for t b by (cases t) simp_all
  then show ?thesis by (simp add: toy_host_def toy_RegExp_def toy_test_def)
qed

lemma toy_unterminated: "RegExp_i toy_host ''a('' = None"
  by code_simp

text \<open>On the small host the pattern \<^verbatim>\<open>a(\<close> does not compile, its escaped form would match
  the name \<^verbatim>\<open>xa(\<close>, and the filter still rejects that name and accepts \<^verbatim>\<open>A(\<close>.\<close>

theorem matchesServerFilter_pattern_witness:
  "RegExp_i toy_host ''a('' = None
   \<and> map_option (\<lambda>r. rx_test toy_host r ''xa('') (RegExp_i toy_host (escapeRegExp ''a(''))
       = Some True
   \<and> matchesServerFilter toy_host ''xa('' (Some ''a('') = False
   \<and> matchesServerFilter toy_host ''A('' (Some ''a('') = True
   \<and> matchesServerFilter toy_host ''db'' (Some []) = True"
proof -
  have a: "RegExp_i toy_host ''a('' = None" by (rule toy_unterminated)
  have b: "map_option (\<lambda>r. rx_test toy_host r ''xa('') (RegExp_i toy_host (escapeRegExp ''a(''))
       = Some True"
    by code_simp
  have l1: "toLowerCase toy_host ''xa('' \<noteq> toLowerCase toy_host ''a(''"
    by (simp add: toy_host_def)
  have l2: "toLowerCase toy_host ''A('' = toLowerCase toy_host ''a(''"
    by (simp add: toy_host_def ascii_lower_def)
  have c: "matchesServerFilter toy_host ''xa('' (Some ''a('') = False"
    using matchesServerFilter_pattern [of "''a(''" toy_host "''xa(''"] a l1 by simp
  have d: "matchesServerFilter toy_host ''A('' (Some ''a('') = True"
    using matchesServerFilter_pattern [of "''a(''" toy_host "''A(''"] a l2 by simp
  have e: "matchesServerFilter toy_host ''db'' (Some []) = True"
    using matchesServerFilter_pattern [of "[]" toy_host "''db''"] toy_empty_pattern
    by (simp add: toy_host_def toy_RegExp_def toy_test_def)
  from a b c d e show ?thesis by blast
qed

subsection \<open>Closed forms of the loops\<close>

lemma searchTools_push_eq:
  "searchTools_push host rx inc n ts results =
     results @ map (toolResult n inc) (filter (tool_kept host rx) ts)"
  by (induction ts arbitrary: results) simp_all

lemma searchResources_push_eq:
  "searchResources_push host rx n rs results =
     results @ map (resourceResult n) (filter (resource_kept host rx) rs)"
  by (induction rs arbitrary: results) simp_all

lemma searchPrompts_push_eq:
  "searchPrompts_push host rx n ps results =
     results @ map (promptResult n) (filter (prompt_kept host rx) ps)"
  by (induction ps arbitrary: results) simp_all

lemma searchTools_loop_eq:
  "searchTools_loop host rx pat inc cls (results, log) =
     (results @ concat (map (\<lambda>(n, cl). case c_listTools cl of
                               Inl err \<Rightarrow> []
                             | Inr ts \<Rightarrow> map (toolResult n inc) (filter (tool_kept host rx) ts))
                  (filter (\<lambda>(n, cl). matchesServerFilter host n pat) cls)),
      log @ map (\<lambda>(n, cl). Contact n ListTools)
              (filter (\<lambda>(n, cl). matchesServerFilter host n pat) cls))"
proof (induction cls arbitrary: results log)
  case Nil
  show ?case by simp
next
  case (Cons a cls)
  obtain n cl where a: "a = (n, cl)" by (cases a)
  show ?case
    by (cases "c_listTools cl") (simp_all add: a Cons.IH searchTools_push_eq)
qed

lemma searchResources_loop_eq:
  "searchResources_loop host rx pat cls (results, log) =
     (results @ concat (map (\<lambda>(n, cl). case c_listResources cl of
                               Inl err \<Rightarrow> []
                             | Inr rs \<Rightarrow> map (resourceResult n) (filter (resource_kept host rx) rs))
                  (filter (\<lambda>(n, cl). matchesServerFilter host n pat) cls)),
      log @ map (\<lambda>(n, cl). Contact n ListResources)
              (filter (\<lambda>(n, cl). matchesServerFilter host n pat) cls))"
proof (induction cls arbitrary: results log)
  case Nil
  show ?case by simp
next
  case (Cons a cls)
  obtain n cl where a: "a = (n, cl)" by (cases a)
  show ?case
    by (cases "c_listResources cl") (simp_all add: a Cons.IH searchResources_push_eq)
qed

lemma searchPrompts_loop_eq:
  "searchPrompts_loop host rx pat cls (results, log) =
     (results @ concat (map (\<lambda>(n, cl). case c_listPrompts cl of
                               Inl err \<Rightarrow> []
                             | Inr ps \<Rightarrow> map (promptResult n) (filter (prompt_kept host rx) ps))
                  (filter (\<lambda>(n, cl). matchesServerFilter host n pat) cls)),
      log @ map (\<lambda>(n, cl). Contact n ListPrompts)
              (filter (\<lambda>(n, cl). matchesServerFilter host n pat) cls))"
proof (induction cls arbitrary: results log)
  case Nil
  show ?case by simp
next
  case (Cons a cls)
  obtain n cl where a: "a = (n, cl)" by (cases a)
  show ?case
    by (cases "c_listPrompts cl") (simp_all add: a Cons.IH searchPrompts_push_eq)
qed

lemma searchTools_eq:
  "searchTools host s rx pat inc log =
     (concat (map (\<lambda>(n, cl). case c_listTools cl of
                      Inl err \<Rightarrow> []
                    | Inr ts \<Rightarrow> map (toolResult n inc) (filter (tool_kept host rx) ts))
                (fanout_targets host s pat)),
      log @ map (\<lambda>(n, cl). Contact n ListTools) (fanout_targets host s pat))"
  by (simp add: searchTools_def searchTools_loop_eq fanout_targets_def)

lemma searchResources_eq:
  "searchResources host s rx pat log =
     (concat (map (\<lambda>(n, cl). case c_listResources cl of
                      Inl err \<Rightarrow> []
                    | Inr rs \<Rightarrow> map (resourceResult n) (filter (resource_kept host rx) rs))
                (fanout_targets host s pat)),
      log @ map (\<lambda>(n, cl). Contact n ListResources) (fanout_targets host s pat))"
  by (simp add: searchResources_def searchResources_loop_eq fanout_targets_def)

lemma searchPrompts_eq:
  "searchPrompts host s rx pat log =
     (concat (map (\<lambda>(n, cl). case c_listPrompts cl of
                      Inl err \<Rightarrow> []
                    | Inr ps \<Rightarrow> map (promptResult n) (filter (prompt_kept host rx) ps))
                (fanout_targets host s pat)),
      log @ map (\<lambda>(n, cl). Contact n ListPrompts) (fanout_targets host s pat))"
  by (simp add: searchPrompts_def searchPrompts_loop_eq fanout_targets_def)

lemma searchServers_loop_eq:
  "searchServers_loop host s rx pat servers results =
     results @ map (serverResult s)
       (filter (\<lambda>sv. matchesServerFilter host (info_name sv) pat \<and>
                      matchesQuery host (Some (info_name sv)) rx) servers)"
  by (induction servers arbitrary: results) simp_all

lemma searchServers_eq:
  "searchServers host s servers rx pat =
     map (serverResult s)
       (filter (\<lambda>sv. matchesServerFilter host (info_name sv) pat \<and>
                      info_name sv \<noteq> [] \<and> rx_test host rx (info_name sv)) servers)"
  by (simp add: searchServers_def searchServers_loop_eq matchesQuery_def)
     (metis (mono_tags, lifting) filter_cong)

lemma kept_iff:
  "tool_kept host rx t =
     ((tool_name t \<noteq> [] \<and> rx_test host rx (tool_name t)) \<or>
      (case tool_description t of None \<Rightarrow> False | Some d \<Rightarrow> d \<noteq> [] \<and> rx_test host rx d))"
  "resource_kept host rx r =
     ((res_name r \<noteq> [] \<and> rx_test host rx (res_name r)) \<or>
      (res_uri r \<noteq> [] \<and> rx_test host rx (res_uri r)) \<or>
      (case res_description r of None \<Rightarrow> False | Some d \<Rightarrow> d \<noteq> [] \<and> rx_test host rx d))"
  "prompt_kept host rx p =
     ((prompt_name p \<noteq> [] \<and> rx_test host rx (prompt_name p)) \<or>
      (case prompt_description p of None \<Rightarrow> False | Some d \<Rightarrow> d \<noteq> [] \<and> rx_test host rx d))"
  by (auto simp add: tool_kept_def resource_kept_def prompt_kept_def matchesQuery_def
      split: option.splits)

subsection \<open>The servers a search fans out to\<close>

lemma matching_client_here:
  "(n, cl) \<in> set (if st = Connected \<and> serverPattern_selects host pat m
                    then (case c of None \<Rightarrow> [] | Some cl' \<Rightarrow> [(m, cl')]) else []) \<longleftrightarrow>
   (m, \<lparr>conn_status = st, conn_client = c\<rparr>) = (n, \<lparr>conn_status = Connected, conn_client = Some cl\<rparr>)
   \<and> serverPattern_selects host pat n"
  by (cases c; cases "st = Connected"; cases "serverPattern_selects host pat m") auto

lemma getMatchingClients_member:
  "(n, cl) \<in> set (getMatchingClients host s pat) \<longleftrightarrow>
   (n, \<lparr>conn_status = Connected, conn_client = Some cl\<rparr>) \<in> set (backendConnections s) \<and>
   serverPattern_selects host pat n"
proof -
  define f :: "string \<times> connection \<Rightarrow> (string \<times> client) list" where
    "f = (\<lambda>(n, conn).
            if conn_status conn = Connected \<and> serverPattern_selects host pat n
            then (case conn_client conn of None \<Rightarrow> [] | Some cl \<Rightarrow> [(n, cl)])
            else [])"
  have "(n, cl) \<in> set (concat (map f conns)) \<longleftrightarrow>
        (n, \<lparr>conn_status = Connected, conn_client = Some cl\<rparr>) \<in> set conns \<and>
        serverPattern_selects host pat n" for conns
  proof (induction conns)
    case Nil
    show ?case by simp
  next
    case (Cons a conns)
    obtain m conn where a0: "a = (m, conn)" by (cases a)
    obtain st c where c0: "conn = \<lparr>conn_status = st, conn_client = c\<rparr>" by (cases conn)
    have here: "(n, cl) \<in> set (f a) \<longleftrightarrow>
        a = (n, \<lparr>conn_status = Connected, conn_client = Some cl\<rparr>) \<and>
        serverPattern_selects host pat n"
      by (cases c; cases "st = Connected"; cases "serverPattern_selects host pat m")
         (auto simp add: f_def a0 c0)
    have "(n, cl) \<in> set (concat (map f (a # conns))) \<longleftrightarrow>
          (n, cl) \<in> set (f a) \<or> (n, cl) \<in> set (concat (map f conns))"
      by (simp only: list.map concat.simps set_append Un_iff)
    also have "\<dots> \<longleftrightarrow>
        (a = (n, \<lparr>conn_status = Connected, conn_client = Some cl\<rparr>) \<or>
         (n, \<lparr>conn_status = Connected, conn_client = Some cl\<rparr>) \<in> set conns) \<and>
        serverPattern_selects host pat n"
      unfolding here Cons.IH by blast
    also have "\<dots> \<longleftrightarrow>
        (n, \<lparr>conn_status = Connected, conn_client = Some cl\<rparr>) \<in> set (a # conns) \<and>
        serverPattern_selects host pat n"
      by (simp only: list.set insert_iff) blast
    finally show ?case .
  qed
  from this [of "backendConnections s"] show ?thesis
    unfolding getMatchingClients_def f_def .
qed

lemma fanout_targets_member:
  "(n, cl) \<in> set (fanout_targets host s pat) \<longleftrightarrow>
   (n, \<lparr>conn_status = Connected, conn_client = Some cl\<rparr>) \<in> set (backendConnections s) \<and>
   serverPattern_selects host pat n \<and> matchesServerFilter host n pat"
  by (auto simp add: fanout_targets_def getMatchingClients_member)

lemma search_categories:
  assumes "createQueryRegex host (sq_query q) = Some rx"
  shows "r_tools (fst (search host q s servers log)) =
           (if sq_type q = Tools \<or> sq_type q = All
            then Some (fst (searchTools host s rx (sq_server q) (sq_includeSchemas q) log)) else None)"
    and "r_resources (fst (search host q s servers log)) =
           (if sq_type q = Resources \<or> sq_type q = All
            then Some (fst (searchResources host s rx (sq_server q) log)) else None)"
    and "r_prompts (fst (search host q s servers log)) =
           (if sq_type q = Prompts \<or> sq_type q = All
            then Some (fst (searchPrompts host s rx (sq_server q) log)) else None)"
    and "r_servers (fst (search host q s servers log)) =
           (if sq_type q = Servers \<or> sq_type q = All
            then Some (searchServers host s servers rx (sq_server q)) else None)"
    and "snd (search host q s servers log) =
           log @ (if sq_type q = Tools \<or> sq_type q = All
                  then map (\<lambda>(n, cl). Contact n ListTools) (fanout_targets host s (sq_server q)) else [])
               @ (if sq_type q = Resources \<or> sq_type q = All
                  then map (\<lambda>(n, cl). Contact n ListResources) (fanout_targets host s (sq_server q)) else [])
               @ (if sq_type q = Prompts \<or> sq_type q = All
                  then map (\<lambda>(n, cl). Contact n ListPrompts) (fanout_targets host s (sq_server q)) else [])"
  using assms
  by (cases "sq_type q";
      simp add: search_def Let_def empty_result_def searchTools_eq searchResources_eq
        searchPrompts_eq)+

text \<open>
  Claim C3, as amended. For tools, resources and prompts the search contacts exactly the
  fan-out targets, in order: the connections of the session that are connected, have a
  client and pass the server pattern and \<^verbatim>\<open>matchesServerFilter\<close>; a target whose
  enumeration succeeds contributes its kept items, shaped as results and tagged with its
  name. An item is kept exactly when its name, its description or, for a resource, its
  uri is present, is not the empty string and is matched by the query regex. The servers
  kind does not look at the connection status: it lists every server that the session
  manager returns whose name passes the server filter, is not empty and is matched by the
  query regex. A category is present in the result exactly when the type asks for it.
\<close>

theorem search_fanout_and_matching:
  "searchTools host s rx pat inc log =
     (concat (map (\<lambda>(n, cl). case c_listTools cl of
                      Inl err \<Rightarrow> []
                    | Inr ts \<Rightarrow> map (toolResult n inc) (filter (tool_kept host rx) ts))
                (fanout_targets host s pat)),
      log @ map (\<lambda>(n, cl). Contact n ListTools) (fanout_targets host s pat))
   \<and> searchResources host s rx pat log =
     (concat (map (\<lambda>(n, cl). case c_listResources cl of
                      Inl err \<Rightarrow> []
                    | Inr rs \<Rightarrow> map (resourceResult n) (filter (resource_kept host rx) rs))
                (fanout_targets host s pat)),
      log @ map (\<lambda>(n, cl). Contact n ListResources) (fanout_targets host s pat))
   \<and> searchPrompts host s rx pat log =
     (concat (map (\<lambda>(n, cl). case c_listPrompts cl of
                      Inl err \<Rightarrow> []
                    | Inr ps \<Rightarrow> map (promptResult n) (filter (prompt_kept host rx) ps))
                (fanout_targets host s pat)),
      log @ map (\<lambda>(n, cl). Contact n ListPrompts) (fanout_targets host s pat))
   \<and> ((n, cl) \<in> set (fanout_targets host s pat) \<longleftrightarrow>
        (n, \<lparr>conn_status = Connected, conn_client = Some cl\<rparr>) \<in> set (backendConnections s) \<and>
        serverPattern_selects host pat n \<and> matchesServerFilter host n pat)
   \<and> tool_kept host rx t =
       ((tool_name t \<noteq> [] \<and> rx_test host rx (tool_name t)) \<or>
        (case tool_description t of None \<Rightarrow> False | Some d \<Rightarrow> d \<noteq> [] \<and> rx_test host rx d))
   \<and> resource_kept host rx r =
       ((res_name r \<noteq> [] \<and> rx_test host rx (res_name r)) \<or>
        (res_uri r \<noteq> [] \<and> rx_test host rx (res_uri r)) \<or>
        (case res_description r of None \<Rightarrow> False | Some d \<Rightarrow> d \<noteq> [] \<and> rx_test host rx d))
   \<and> prompt_kept host rx p =
       ((prompt_name p \<noteq> [] \<and> rx_test host rx (prompt_name p)) \<or>
        (case prompt_description p of None \<Rightarrow> False | Some d \<Rightarrow> d \<noteq> [] \<and> rx_test host rx d))
   \<and> searchServers host s servers rx pat =
       map (serverResult s)
         (filter (\<lambda>sv. matchesServerFilter host (info_name sv) pat \<and>
                        info_name sv \<noteq> [] \<and> rx_test host rx (info_name sv)) servers)
   \<and> (createQueryRegex host (sq_query q) = Some rx \<longrightarrow>
        r_tools (fst (search host q s servers log)) =
          (if sq_type q = Tools \<or> sq_type q = All
           then Some (fst (searchTools host s rx (sq_server q) (sq_includeSchemas q) log)) else None)
        \<and> r_resources (fst (search host q s servers log)) =
          (if sq_type q = Resources \<or> sq_type q = All
           then Some (fst (searchResources host s rx (sq_server q) log)) else None)
        \<and> r_prompts (fst (search host q s servers log)) =
          (if sq_type q = Prompts \<or> sq_type q = All
           then Some (fst (searchPrompts host s rx (sq_server q) log)) else None)
        \<and> r_servers (fst (search host q s servers log)) =
          (if sq_type q = Servers \<or> sq_type q = All
           then Some (searchServers host s servers rx (sq_server q)) else None)
        \<and> snd (search host q s servers log) =
           log @ (if sq_type q = Tools \<or> sq_type q = All
                  then map (\<lambda>(n, cl). Contact n ListTools) (fanout_targets host s (sq_server q)) else [])
               @ (if sq_type q = Resources \<or> sq_type q = All
                  then map (\<lambda>(n, cl). Contact n ListResources) (fanout_targets host s (sq_server q)) else [])
               @ (if sq_type q = Prompts \<or> sq_type q = All
                  then map (\<lambda>(n, cl). Contact n ListPrompts) (fanout_targets host s (sq_server q)) else []))"
  by (intro conjI impI searchTools_eq searchResources_eq searchPrompts_eq fanout_targets_member
      kept_iff searchServers_eq search_categories)

text \<open>Searching the tools of the three backends for \<^verbatim>\<open>sql\<close> contacts \<open>db\<close> and \<open>files\<close>,
  not the disconnected \<open>cache\<close> whose tool would match, and returns the tool of \<open>db\<close>.\<close>

theorem search_fanout_and_matching_witness:
  "createQueryRegex toy_host (sq_query (query_of ''sql'' Tools))
     = Some [Lit CHR ''s'', Lit CHR ''q'', Lit CHR ''l'']
   \<and> search toy_host (query_of ''sql'' Tools) session3 servers3 [] =
       (\<lparr>r_tools = Some [\<lparr>st_server = ''db'', st_name = ''query'',
                            st_description = Some ''Run SQL'', st_inputSchema = None\<rparr>],
         r_resources = None, r_prompts = None, r_servers = None\<rparr>,
        [Contact ''db'' ListTools, Contact ''files'' ListTools])"
proof -
  have rx: "createQueryRegex toy_host (sq_query (query_of ''sql'' Tools))
     = Some [Lit CHR ''s'', Lit CHR ''q'', Lit CHR ''l'']"
    by code_simp
  have ty: "sq_type (query_of ''sql'' Tools) = Tools" "sq_server (query_of ''sql'' Tools) = None"
    "sq_includeSchemas (query_of ''sql'' Tools) = None"
    by (simp_all add: query_of_def)
  have tg: "fanout_targets toy_host session3 None = [(''db'', db_client), (''files'', files_client)]"
    by (simp add: fanout_targets_def getMatchingClients_def session3_def serverPattern_selects_def
        matchesServerFilter_def)
  have st: "fst (searchTools toy_host session3 [Lit CHR ''s'', Lit CHR ''q'', Lit CHR ''l'']
                   None None []) =
      [\<lparr>st_server = ''db'', st_name = ''query'', st_description = Some ''Run SQL'',
        st_inputSchema = None\<rparr>]"
    by code_simp
  from search_fanout_and_matching
      [where host = toy_host and s = session3 and servers = servers3 and log = "[]"
         and rx = "[Lit CHR ''s'', Lit CHR ''q'', Lit CHR ''l'']" and q = "query_of ''sql'' Tools"] rx
  have "r_tools (fst (search toy_host (query_of ''sql'' Tools) session3 servers3 [])) =
          Some (fst (searchTools toy_host session3 [Lit CHR ''s'', Lit CHR ''q'', Lit CHR ''l'']
                       None None []))
      \<and> r_resources (fst (search toy_host (query_of ''sql'' Tools) session3 servers3 [])) = None
      \<and> r_prompts (fst (search toy_host (query_of ''sql'' Tools) session3 servers3 [])) = None
      \<and> r_servers (fst (search toy_host (query_of ''sql'' Tools) session3 servers3 [])) = None
      \<and> snd (search toy_host (query_of ''sql'' Tools) session3 servers3 []) =
           map (\<lambda>(n, cl). Contact n ListTools) (fanout_targets toy_host session3 None)"
    by (simp add: ty)
  then have "search toy_host (query_of ''sql'' Tools) session3 servers3 [] =
       (\<lparr>r_tools = Some [\<lparr>st_server = ''db'', st_name = ''query'',
                            st_description = Some ''Run SQL'', st_inputSchema = None\<rparr>],
         r_resources = None, r_prompts = None, r_servers = None\<rparr>,
        [Contact ''db'' ListTools, Contact ''files'' ListTools])"
    by (simp add: st tg prod_eq_iff search_result.equality)
  with rx show ?thesis by blast
qed

text \<open>The claim as it was stated fails twice on the small host. Searching the kind servers
  for \<^verbatim>\<open>cache\<close> returns the server \<open>cache\<close>, whose status is disconnected. And the query
  \<^verbatim>\<open>^$\<close> matches the empty description of the resource \<open>notes\<close> of \<open>db\<close>, yet the
  resource is not kept, because \<^verbatim>\<open>matchesQuery\<close> answers false for an empty string.\<close>

theorem search_fanout_and_matching_counterexample:
  "r_servers (fst (search toy_host (query_of ''cache'' Servers) session3 servers3 [])) =
     Some [\<lparr>ss_name = ''cache'', ss_status = Disconnected,
            ss_capabilities = \<lparr>cap_tools = True, cap_resources = False, cap_prompts = False\<rparr>\<rparr>]
   \<and> createQueryRegex toy_host ''^$'' = Some [Bol, Eol]
   \<and> rx_test toy_host [Bol, Eol] [] = True
   \<and> c_listResources db_client =
       Inr [\<lparr>res_uri = ''file:///notes'', res_name = ''notes'', res_description = Some [],
             res_mimeType = None\<rparr>]
   \<and> r_resources (fst (search toy_host (query_of ''^$'' Resources) session3 servers3 [])) = Some []"
proof -
  have a: "r_servers (fst (search toy_host (query_of ''cache'' Servers) session3 servers3 [])) =
     Some [\<lparr>ss_name = ''cache'', ss_status = Disconnected,
            ss_capabilities = \<lparr>cap_tools = True, cap_resources = False, cap_prompts = False\<rparr>\<rparr>]"
    by code_simp
  have b: "createQueryRegex toy_host ''^$'' = Some [Bol, Eol]" by code_simp
  have c: "rx_test toy_host [Bol, Eol] [] = True" by code_simp
  have d: "c_listResources db_client =
       Inr [\<lparr>res_uri = ''file:///notes'', res_name = ''notes'', res_description = Some [],
             res_mimeType = None\<rparr>]"
    by (simp add: db_client_def)
  have e: "r_resources (fst (search toy_host (query_of ''^$'' Resources) session3 servers3 [])) = Some []"
    by code_simp
  from a b c d e show ?thesis by blast
qed

subsection \<open>Backends that fail\<close>

lemma failing_targets:
  assumes "every_backend_fails s" and "(n, cl) \<in> set (fanout_targets host s pat)"
  shows "isl (c_listTools cl) \<and> isl (c_listResources cl) \<and> isl (c_listPrompts cl)"
proof -
  from assms(2) have "(n, \<lparr>conn_status = Connected, conn_client = Some cl\<rparr>) \<in> set (backendConnections s)"
    by (simp add: fanout_targets_member)
  with assms(1) show ?thesis
    unfolding every_backend_fails_def list_all_iff by fastforce
qed

lemma concat_map_all_Nil: "(\<And>x. x \<in> set xs \<Longrightarrow> f x = []) \<Longrightarrow> concat (map f xs) = []"
  by (induction xs) simp_all

lemma all_fail_tools:
  assumes "every_backend_fails s"
  shows "fst (searchTools host s rx pat inc log) = []"
proof -
  have "(case x of (n, cl) \<Rightarrow> case c_listTools cl of
                      Inl err \<Rightarrow> []
                    | Inr ts \<Rightarrow> map (toolResult n inc) (filter (tool_kept host rx) ts)) = []"
    if "x \<in> set (fanout_targets host s pat)" for x
  proof -
    obtain n cl where x: "x = (n, cl)" by (cases x)
    from failing_targets [OF assms] that x have "isl (c_listTools cl)" by blast
    then show ?thesis by (cases "c_listTools cl") (simp_all add: x)
  qed
  then show ?thesis by (simp add: searchTools_eq concat_map_all_Nil)
qed

lemma all_fail_resources:
  assumes "every_backend_fails s"
  shows "fst (searchResources host s rx pat log) = []"
proof -
  have "(case x of (n, cl) \<Rightarrow> case c_listResources cl of
                      Inl err \<Rightarrow> []
                    | Inr rs \<Rightarrow> map (resourceResult n) (filter (resource_kept host rx) rs)) = []"
    if "x \<in> set (fanout_targets host s pat)" for x
  proof -
    obtain n cl where x: "x = (n, cl)" by (cases x)
    from failing_targets [OF assms] that x have "isl (c_listResources cl)" by blast
    then show ?thesis by (cases "c_listResources cl") (simp_all add: x)
  qed
  then show ?thesis by (simp add: searchResources_eq concat_map_all_Nil)
qed

lemma all_fail_prompts:
  assumes "every_backend_fails s"
  shows "fst (searchPrompts host s rx pat log) = []"
proof -
  have "(case x of (n, cl) \<Rightarrow> case c_listPrompts cl of
                      Inl err \<Rightarrow> []
                    | Inr ps \<Rightarrow> map (promptResult n) (filter (prompt_kept host rx) ps)) = []"
    if "x \<in> set (fanout_targets host s pat)" for x
  proof -
    obtain n cl where x: "x = (n, cl)" by (cases x)
    from failing_targets [OF assms] that x have "isl (c_listPrompts cl)" by blast
    then show ?thesis by (cases "c_listPrompts cl") (simp_all add: x)
  qed
  then show ?thesis by (simp add: searchPrompts_eq concat_map_all_Nil)
qed

lemma getMatchingClients_without:
  "getMatchingClients host (without_clients bad s) pat =
     filter (\<lambda>(n, cl). \<not> bad cl) (getMatchingClients host s pat)"
proof -
  define f :: "string \<times> connection \<Rightarrow> (string \<times> client) list" where
    "f = (\<lambda>(n, conn).
            if conn_status conn = Connected \<and> serverPattern_selects host pat n
            then (case conn_client conn of None \<Rightarrow> [] | Some cl \<Rightarrow> [(n, cl)])
            else [])"
  define keep :: "string \<times> connection \<Rightarrow> bool" where
    "keep = (\<lambda>(n, conn). case conn_client conn of None \<Rightarrow> True | Some cl \<Rightarrow> \<not> bad cl)"
  have main: "concat (map f (filter keep conns)) =
                filter (\<lambda>(n, cl). \<not> bad cl) (concat (map f conns))" for conns
  proof (induction conns)
    case Nil
    show ?case by simp
  next
    case (Cons a conns)
    obtain m conn where a0: "a = (m, conn)" by (cases a)
    have one: "(if keep a then f a else []) = filter (\<lambda>(n, cl). \<not> bad cl) (f a)"
      by (cases "conn_client conn"; cases "conn_status conn = Connected";
          cases "serverPattern_selects host pat m")
         (auto simp add: f_def keep_def a0)
    have "concat (map f (filter keep (a # conns))) =
            (if keep a then f a else []) @ concat (map f (filter keep conns))"
      by (cases "keep a") simp_all
    also have "\<dots> = filter (\<lambda>(n, cl). \<not> bad cl) (f a) @
                      filter (\<lambda>(n, cl). \<not> bad cl) (concat (map f conns))"
      by (simp only: one Cons.IH)
    also have "\<dots> = filter (\<lambda>(n, cl). \<not> bad cl) (concat (map f (a # conns)))"
      by (simp only: list.map concat.simps filter_append)
    finally show ?case .
  qed
  have sel: "backendConnections (without_clients bad s) = filter keep (backendConnections s)"
    by (simp add: without_clients_def keep_def)
  have g: "getMatchingClients host t pat = concat (map f (backendConnections t))" for t
    unfolding getMatchingClients_def f_def by (rule refl)
  show ?thesis unfolding g sel by (rule main)
qed

lemma filter_swap: "filter P (filter Q xs) = filter Q (filter P xs)"
  by (induction xs) simp_all

lemma fanout_targets_without:
  "fanout_targets host (without_clients bad s) pat =
     filter (\<lambda>(n, cl). \<not> bad cl) (fanout_targets host s pat)"
  unfolding fanout_targets_def getMatchingClients_without
  by (rule filter_swap)

lemma concat_map_filter_skip:
  "(\<And>x. x \<in> set xs \<Longrightarrow> \<not> P x \<Longrightarrow> f x = []) \<Longrightarrow>
   concat (map f (filter P xs)) = concat (map f xs)"
  by (induction xs) simp_all

lemma skip_failing_tools:
  "fst (searchTools host (without_clients (\<lambda>cl. isl (c_listTools cl)) s) rx pat inc log') =
   fst (searchTools host s rx pat inc log)"
  unfolding searchTools_eq fanout_targets_without fst_conv
  by (rule concat_map_filter_skip) (auto split: sum.splits)

lemma skip_failing_resources:
  "fst (searchResources host (without_clients (\<lambda>cl. isl (c_listResources cl)) s) rx pat log') =
   fst (searchResources host s rx pat log)"
  unfolding searchResources_eq fanout_targets_without fst_conv
  by (rule concat_map_filter_skip) (auto split: sum.splits)

lemma skip_failing_prompts:
  "fst (searchPrompts host (without_clients (\<lambda>cl. isl (c_listPrompts cl)) s) rx pat log') =
   fst (searchPrompts host s rx pat log)"
  unfolding searchPrompts_eq fanout_targets_without fst_conv
  by (rule concat_map_filter_skip) (auto split: sum.splits)

lemma all_fail_search:
  assumes "every_backend_fails s"
  shows "fst (search host q s servers log) =
       (case createQueryRegex host (sq_query q) of
          None \<Rightarrow> empty_result
        | Some rx \<Rightarrow>
            \<lparr>r_tools = (if sq_type q = Tools \<or> sq_type q = All then Some [] else None),
             r_resources = (if sq_type q = Resources \<or> sq_type q = All then Some [] else None),
             r_prompts = (if sq_type q = Prompts \<or> sq_type q = All then Some [] else None),
             r_servers = (if sq_type q = Servers \<or> sq_type q = All
                          then Some (searchServers host s servers rx (sq_server q)) else None)\<rparr>)"
proof (cases "createQueryRegex host (sq_query q)")
  case None
  then show ?thesis by (simp add: search_unparsable)
next
  case (Some rx)
  have "fst (search host q s servers log) =
      \<lparr>r_tools = r_tools (fst (search host q s servers log)),
       r_resources = r_resources (fst (search host q s servers log)),
       r_prompts = r_prompts (fst (search host q s servers log)),
       r_servers = r_servers (fst (search host q s servers log))\<rparr>"
    by simp
  also have "\<dots> =
      \<lparr>r_tools = (if sq_type q = Tools \<or> sq_type q = All then Some [] else None),
       r_resources = (if sq_type q = Resources \<or> sq_type q = All then Some [] else None),
       r_prompts = (if sq_type q = Prompts \<or> sq_type q = All then Some [] else None),
       r_servers = (if sq_type q = Servers \<or> sq_type q = All
                    then Some (searchServers host s servers rx (sq_server q)) else None)\<rparr>"
    unfolding search_categories(1-4) [OF Some]
      all_fail_tools [OF assms] all_fail_resources [OF assms] all_fail_prompts [OF assms]
    by (rule refl)
  finally show ?thesis by (simp add: Some)
qed

lemma skip_failing_search:
  "r_tools (fst (search host q (without_clients (\<lambda>cl. isl (c_listTools cl)) s) servers log)) =
   r_tools (fst (search host q s servers log))"
  "r_resources (fst (search host q (without_clients (\<lambda>cl. isl (c_listResources cl)) s) servers log)) =
   r_resources (fst (search host q s servers log))"
  "r_prompts (fst (search host q (without_clients (\<lambda>cl. isl (c_listPrompts cl)) s) servers log)) =
   r_prompts (fst (search host q s servers log))"
proof -
  show "r_tools (fst (search host q (without_clients (\<lambda>cl. isl (c_listTools cl)) s) servers log)) =
        r_tools (fst (search host q s servers log))"
  proof (cases "createQueryRegex host (sq_query q)")
    case None
    then show ?thesis by (simp add: search_unparsable)
  next
    case (Some rx)
    show ?thesis unfolding search_categories(1) [OF Some] skip_failing_tools [of _ _ _ _ _ log log]
      by (rule refl)
  qed
  show "r_resources (fst (search host q (without_clients (\<lambda>cl. isl (c_listResources cl)) s) servers log)) =
        r_resources (fst (search host q s servers log))"
  proof (cases "createQueryRegex host (sq_query q)")
    case None
    then show ?thesis by (simp add: search_unparsable)
  next
    case (Some rx)
    show ?thesis unfolding search_categories(2) [OF Some] skip_failing_resources [of _ _ _ _ log log]
      by (rule refl)
  qed
  show "r_prompts (fst (search host q (without_clients (\<lambda>cl. isl (c_listPrompts cl)) s) servers log)) =
        r_prompts (fst (search host q s servers log))"
  proof (cases "createQueryRegex host (sq_query q)")
    case None
    then show ?thesis by (simp add: search_unparsable)
  next
    case (Some rx)
    show ?thesis unfolding search_categories(3) [OF Some] skip_failing_prompts [of _ _ _ _ log log]
      by (rule refl)
  qed
qed

text \<open>
  Claim C4, as amended. A backend whose enumeration throws is skipped: the tools, the
  resources and the prompts found are those found in the session without the backends
  whose enumeration of that kind throws. The search has no outcome other than a result,
  since every error of a backend is caught where it is thrown. When every backend
  fails, each category among tools, resources and prompts that the type asks for is
  present and empty, while the servers category, which asks nothing of the backends,
  still lists the matching servers; the result without any key is returned only for a
  query that does not compile.
\<close>

theorem search_suppresses_backend_failures:
  "r_tools (fst (search host q (without_clients (\<lambda>cl. isl (c_listTools cl)) s) servers log)) =
     r_tools (fst (search host q s servers log))
   \<and> r_resources (fst (search host q (without_clients (\<lambda>cl. isl (c_listResources cl)) s) servers log)) =
     r_resources (fst (search host q s servers log))
   \<and> r_prompts (fst (search host q (without_clients (\<lambda>cl. isl (c_listPrompts cl)) s) servers log)) =
     r_prompts (fst (search host q s servers log))
   \<and> (every_backend_fails s \<longrightarrow>
        fst (search host q s servers log) =
          (case createQueryRegex host (sq_query q) of
             None \<Rightarrow> empty_result
           | Some rx \<Rightarrow>
               \<lparr>r_tools = (if sq_type q = Tools \<or> sq_type q = All then Some [] else None),
                r_resources = (if sq_type q = Resources \<or> sq_type q = All then Some [] else None),
                r_prompts = (if sq_type q = Prompts \<or> sq_type q = All then Some [] else None),
                r_servers = (if sq_type q = Servers \<or> sq_type q = All
                             then Some (searchServers host s servers rx (sq_server q)) else None)\<rparr>))"
proof (intro conjI impI)
  show "r_tools (fst (search host q (without_clients (\<lambda>cl. isl (c_listTools cl)) s) servers log)) =
     r_tools (fst (search host q s servers log))"
    by (rule skip_failing_search(1))
  show "r_resources (fst (search host q (without_clients (\<lambda>cl. isl (c_listResources cl)) s) servers log)) =
     r_resources (fst (search host q s servers log))"
    by (rule skip_failing_search(2))
  show "r_prompts (fst (search host q (without_clients (\<lambda>cl. isl (c_listPrompts cl)) s) servers log)) =
     r_prompts (fst (search host q s servers log))"
    by (rule skip_failing_search(3))
next
  assume "every_backend_fails s"
  then show "fst (search host q s servers log) =
          (case createQueryRegex host (sq_query q) of
             None \<Rightarrow> empty_result
           | Some rx \<Rightarrow>
               \<lparr>r_tools = (if sq_type q = Tools \<or> sq_type q = All then Some [] else None),
                r_resources = (if sq_type q = Resources \<or> sq_type q = All then Some [] else None),
                r_prompts = (if sq_type q = Prompts \<or> sq_type q = All then Some [] else None),
                r_servers = (if sq_type q = Servers \<or> sq_type q = All
                             then Some (searchServers host s servers rx (sq_server q)) else None)\<rparr>)"
    by (rule all_fail_search)
qed

text \<open>The session whose only backend throws in each enumeration, searched for tools.\<close>

theorem search_suppresses_backend_failures_witness:
  "every_backend_fails failing_session
   \<and> fst (search toy_host (query_of ''files'' Tools) failing_session [c_info files_client] []) =
       \<lparr>r_tools = Some [], r_resources = None, r_prompts = None, r_servers = None\<rparr>"
proof -
  have f: "every_backend_fails failing_session"
    by (simp add: every_backend_fails_def failing_session_def files_client_def)
  have rx: "createQueryRegex toy_host (sq_query (query_of ''files'' Tools)) =
     Some [Lit CHR ''f'', Lit CHR ''i'', Lit CHR ''l'', Lit CHR ''e'', Lit CHR ''s'']"
    by code_simp
  have ty: "sq_type (query_of ''files'' Tools) = Tools"
    by (simp add: query_of_def)
  from search_suppresses_backend_failures
      [where host = toy_host and s = failing_session and q = "query_of ''files'' Tools"
         and servers = "[c_info files_client]" and log = "[]"] f
  have "fst (search toy_host (query_of ''files'' Tools) failing_session [c_info files_client] []) =
       \<lparr>r_tools = Some [], r_resources = None, r_prompts = None, r_servers = None\<rparr>"
    by (simp add: rx ty)
  with f show ?thesis by blast
qed

text \<open>The claim as it was stated fails where the type is \<^verbatim>\<open>all\<close>: the only backend fails
  in each enumeration, and the result is neither without keys nor without items, since
  its servers category lists the backend.\<close>

theorem search_suppresses_backend_failures_counterexample:
  "every_backend_fails failing_session
   \<and> fst (search toy_host (query_of ''files'' All) failing_session [c_info files_client] []) =
       \<lparr>r_tools = Some [], r_resources = Some [], r_prompts = Some [],
        r_servers = Some [\<lparr>ss_name = ''files'', ss_status = Connected,
           ss_capabilities = \<lparr>cap_tools = True, cap_resources = True, cap_prompts = True\<rparr>\<rparr>]\<rparr>
   \<and> fst (search toy_host (query_of ''files'' All) failing_session [c_info files_client] [])
       \<noteq> empty_result"
proof -
  have f: "every_backend_fails failing_session"
    by (simp add: every_backend_fails_def failing_session_def files_client_def)
  have r: "fst (search toy_host (query_of ''files'' All) failing_session [c_info files_client] []) =
       \<lparr>r_tools = Some [], r_resources = Some [], r_prompts = Some [],
        r_servers = Some [\<lparr>ss_name = ''files'', ss_status = Connected,
           ss_capabilities = \<lparr>cap_tools = True, cap_resources = True, cap_prompts = True\<rparr>\<rparr>]\<rparr>"
    by code_simp
  have n: "fst (search toy_host (query_of ''files'' All) failing_session [c_info files_client] [])
       \<noteq> empty_result"
    unfolding r by (simp add: empty_result_def)
  from f r n show ?thesis by blast
qed

section \<open>Properties of the registry\<close>

subsection \<open>Effects and fields\<close>

lemma clients_emit [simp]: "clients (emit e reg) = clients reg"
  by (simp add: emit_def)

lemma effects_emit [simp]: "effects (emit e reg) = effects reg @ [e]"
  by (simp add: emit_def)

lemma pendingSampling_emit [simp]:
  "pendingSamplingRequests (emit e reg) = pendingSamplingRequests reg"
  by (simp add: emit_def)

lemma pendingElicitation_emit [simp]:
  "pendingElicitationRequests (emit e reg) = pendingElicitationRequests reg"
  by (simp add: emit_def)

lemma clients_handleStatusChange [simp]:
  "clients (handleStatusChange n st err reg) = clients reg"
  by (simp add: handleStatusChange_def Let_def split: option.splits)

subsection \<open>Fan-out enumeration\<close>

lemma push_tagged_eq:
  "push_tagged n xs items = items @ map (\<lambda>x. \<lparr>tag_server = n, tag_item = x\<rparr>) xs"
  by (induction xs arbitrary: items) simp_all

lemma list_fanout_eq:
  "list_fanout get rq cls (items, reg) =
     (items @ concat (map (\<lambda>(n, cl). case get cl of
                             Inl err \<Rightarrow> []
                           | Inr xs \<Rightarrow> map (\<lambda>x. \<lparr>tag_server = n, tag_item = x\<rparr>) xs)
                       (filter (\<lambda>(n, cl). info_status (c_info cl) = Connected) cls)),
      reg\<lparr>effects := effects reg @
               map (\<lambda>(n, cl). Contact n rq)
                 (filter (\<lambda>(n, cl). info_status (c_info cl) = Connected) cls)\<rparr>)"
proof (induction cls arbitrary: items reg)
  case Nil
  show ?case by simp
next
  case (Cons a cls)
  obtain n cl where a: "a = (n, cl)" by (cases a)
  show ?case
    by (cases "get cl") (simp_all add: a Cons.IH isConnected_def push_tagged_eq emit_def)
qed

lemma list_of_fanout:
  "list_of get rq None reg =
     (Inr (concat (map (\<lambda>(n, cl). case get cl of
                          Inl err \<Rightarrow> []
                        | Inr xs \<Rightarrow> map (\<lambda>x. \<lparr>tag_server = n, tag_item = x\<rparr>) xs)
                    (connected_clients reg))),
      reg\<lparr>effects := effects reg @ map (\<lambda>(n, cl). Contact n rq) (connected_clients reg)\<rparr>)"
  by (simp add: list_of_def list_fanout_eq connected_clients_def)

lemma connected_clients_member:
  "(n, cl) \<in> set (connected_clients reg) \<longleftrightarrow>
   (n, cl) \<in> set (clients reg) \<and> isConnected cl"
  by (auto simp add: connected_clients_def isConnected_def)

text \<open>
  Claim C5. Called without a server name, each of \<^verbatim>\<open>listTools\<close>, \<^verbatim>\<open>listResources\<close>,
  \<^verbatim>\<open>listResourceTemplates\<close> and \<^verbatim>\<open>listPrompts\<close> returns normally, contacts exactly the
  registered clients whose status is connected, in iteration order, and returns the
  items of those whose enumeration succeeds, each tagged with the name under which its
  client is registered; a client in another state, or whose enumeration throws,
  contributes nothing.
\<close>

theorem registry_fanout:
  "listTools None reg =
     (Inr (concat (map (\<lambda>(n, cl). case c_listTools cl of
                          Inl err \<Rightarrow> []
                        | Inr xs \<Rightarrow> map (\<lambda>x. \<lparr>tag_server = n, tag_item = x\<rparr>) xs)
                    (connected_clients reg))),
      reg\<lparr>effects := effects reg @ map (\<lambda>(n, cl). Contact n ListTools) (connected_clients reg)\<rparr>)
   \<and> listResources None reg =
     (Inr (concat (map (\<lambda>(n, cl). case c_listResources cl of
                          Inl err \<Rightarrow> []
                        | Inr xs \<Rightarrow> map (\<lambda>x. \<lparr>tag_server = n, tag_item = x\<rparr>) xs)
                    (connected_clients reg))),
      reg\<lparr>effects := effects reg @ map (\<lambda>(n, cl). Contact n ListResources) (connected_clients reg)\<rparr>)
   \<and> listResourceTemplates None reg =
     (Inr (concat (map (\<lambda>(n, cl). case c_listResourceTemplates cl of
                          Inl err \<Rightarrow> []
                        | Inr xs \<Rightarrow> map (\<lambda>x. \<lparr>tag_server = n, tag_item = x\<rparr>) xs)
                    (connected_clients reg))),
      reg\<lparr>effects := effects reg @
               map (\<lambda>(n, cl). Contact n ListResourceTemplates) (connected_clients reg)\<rparr>)
   \<and> listPrompts None reg =
     (Inr (concat (map (\<lambda>(n, cl). case c_listPrompts cl of
                          Inl err \<Rightarrow> []
                        | Inr xs \<Rightarrow> map (\<lambda>x. \<lparr>tag_server = n, tag_item = x\<rparr>) xs)
                    (connected_clients reg))),
      reg\<lparr>effects := effects reg @ map (\<lambda>(n, cl). Contact n ListPrompts) (connected_clients reg)\<rparr>)
   \<and> ((n, cl) \<in> set (connected_clients reg) \<longleftrightarrow>
        (n, cl) \<in> set (clients reg) \<and> isConnected cl)
   \<and> isConnected cl = (info_status (c_info cl) = Connected)"
  unfolding listTools_def listResources_def listResourceTemplates_def listPrompts_def
  by (intro conjI list_of_fanout connected_clients_member isConnected_def)

text \<open>In the registry of the three backends the fan-out contacts \<open>db\<close> and \<open>files\<close>, not
  the disconnected \<open>cache\<close>, and \<open>files\<close>, which throws, contributes nothing.\<close>

theorem registry_fanout_witness:
  "connected_clients registry3 = [(''db'', db_client), (''files'', files_client)]
   \<and> listTools None registry3 =
       (Inr [\<lparr>tag_server = ''db'',
              tag_item = \<lparr>tool_name = ''query'', tool_description = Some ''Run SQL'',
                          tool_inputSchema = ''{}''\<rparr>\<rparr>],
        registry3\<lparr>effects := [Contact ''db'' ListTools, Contact ''files'' ListTools]\<rparr>)
   \<and> fst (listPrompts None registry3) = Inr []"
proof -
  have c: "connected_clients registry3 = [(''db'', db_client), (''files'', files_client)]"
    by (simp add: connected_clients_def registry3_def db_client_def cache_client_def
        files_client_def)
  have e: "effects registry3 = []" by (simp add: registry3_def)
  have t: "c_listTools db_client = Inr [\<lparr>tool_name = ''query'', tool_description = Some ''Run SQL'',
                          tool_inputSchema = ''{}''\<rparr>]" "c_listTools files_client = Inl ''timeout''"
    "c_listPrompts db_client = Inl ''Method not found''" "c_listPrompts files_client = Inl ''timeout''"
    by (simp_all add: db_client_def files_client_def)
  from registry_fanout [where reg = registry3]
  show ?thesis by (simp add: c e t)
qed

subsection \<open>Targeted calls\<close>

lemma getConnectedClient_rejects:
  assumes "map_of (clients reg) n = None \<or>
           (\<exists>cl. map_of (clients reg) n = Some cl \<and> \<not> isConnected cl)"
  shows "getConnectedClient reg n =
           Inl (''Server '' @ [CHR 0x27] @ n @ [CHR 0x27] @
                (if map_of (clients reg) n = None then '' not found'' else '' is not connected''))"
  using assms by (auto simp add: getConnectedClient_def quoted_def squote_def)

lemma getConnectedClient_accepts:
  "map_of (clients reg) n = Some cl \<Longrightarrow> isConnected cl \<Longrightarrow> getConnectedClient reg n = Inr cl"
  by (simp add: getConnectedClient_def)

lemma list_of_rejects:
  "getConnectedClient reg n = Inl msg \<Longrightarrow> list_of get rq (Some n) reg = (Inl msg, reg)"
  by (simp add: list_of_def)

text \<open>
  Claim C7. When the named server is not registered, or its client is not connected,
  \<^verbatim>\<open>executeTool\<close>, \<^verbatim>\<open>readResource\<close>, \<^verbatim>\<open>getPrompt\<close> and the four list methods called with
  that name throw an error whose message names the server (\<^verbatim>\<open>Server '<name>' not found\<close>,
  \<^verbatim>\<open>Server '<name>' is not connected\<close>), and the registry is left as it was: no backend
  is contacted. When the server is registered and connected, the call contacts that
  backend, once.
\<close>

theorem targeted_calls_need_connected_server:
  "(map_of (clients reg) n = None \<or>
      (\<exists>cl. map_of (clients reg) n = Some cl \<and> \<not> isConnected cl) \<longrightarrow>
    msg = ''Server '' @ [CHR 0x27] @ n @ [CHR 0x27] @
            (if map_of (clients reg) n = None then '' not found'' else '' is not connected'') \<longrightarrow>
      executeTool n t a reg = (Inl msg, reg)
      \<and> readResource n u reg = (Inl msg, reg)
      \<and> getPrompt n p a reg = (Inl msg, reg)
      \<and> listTools (Some n) reg = (Inl msg, reg)
      \<and> listResources (Some n) reg = (Inl msg, reg)
      \<and> listResourceTemplates (Some n) reg = (Inl msg, reg)
      \<and> listPrompts (Some n) reg = (Inl msg, reg))
   \<and> (map_of (clients reg) n = Some cl \<and> isConnected cl \<longrightarrow>
        executeTool n t (Some j) reg =
          (c_callTool cl t j, reg\<lparr>effects := effects reg @ [Contact n (CallTool t j)]\<rparr>)
        \<and> readResource n u reg =
          (c_readResource cl u, reg\<lparr>effects := effects reg @ [Contact n (ReadResource u)]\<rparr>)
        \<and> getPrompt n p (Some j) reg =
          (c_getPrompt cl p j, reg\<lparr>effects := effects reg @ [Contact n (GetPrompt p j)]\<rparr>)
        \<and> effects (snd (listTools (Some n) reg)) = effects reg @ [Contact n ListTools]
        \<and> effects (snd (listResources (Some n) reg)) = effects reg @ [Contact n ListResources]
        \<and> effects (snd (listResourceTemplates (Some n) reg))
            = effects reg @ [Contact n ListResourceTemplates]
        \<and> effects (snd (listPrompts (Some n) reg)) = effects reg @ [Contact n ListPrompts])"
proof (intro conjI impI)
  assume h: "map_of (clients reg) n = None \<or>
      (\<exists>cl. map_of (clients reg) n = Some cl \<and> \<not> isConnected cl)"
    and m: "msg = ''Server '' @ [CHR 0x27] @ n @ [CHR 0x27] @
            (if map_of (clients reg) n = None then '' not found'' else '' is not connected'')"
  from getConnectedClient_rejects [OF h] m have g: "getConnectedClient reg n = Inl msg" by simp
  from g show "executeTool n t a reg = (Inl msg, reg)" by (simp add: executeTool_def)
  from g show "readResource n u reg = (Inl msg, reg)" by (simp add: readResource_def)
  from g show "getPrompt n p a reg = (Inl msg, reg)" by (simp add: getPrompt_def)
  from g show "listTools (Some n) reg = (Inl msg, reg)"
    by (simp add: listTools_def list_of_rejects)
  from g show "listResources (Some n) reg = (Inl msg, reg)"
    by (simp add: listResources_def list_of_rejects)
  from g show "listResourceTemplates (Some n) reg = (Inl msg, reg)"
    by (simp add: listResourceTemplates_def list_of_rejects)
  from g show "listPrompts (Some n) reg = (Inl msg, reg)"
    by (simp add: listPrompts_def list_of_rejects)
next
  assume "map_of (clients reg) n = Some cl \<and> isConnected cl"
  then have g: "getConnectedClient reg n = Inr cl" by (simp add: getConnectedClient_accepts)
  from g show "executeTool n t (Some j) reg =
          (c_callTool cl t j, reg\<lparr>effects := effects reg @ [Contact n (CallTool t j)]\<rparr>)"
    by (simp add: executeTool_def emit_def)
  from g show "readResource n u reg =
          (c_readResource cl u, reg\<lparr>effects := effects reg @ [Contact n (ReadResource u)]\<rparr>)"
    by (simp add: readResource_def emit_def)
  from g show "getPrompt n p (Some j) reg =
          (c_getPrompt cl p j, reg\<lparr>effects := effects reg @ [Contact n (GetPrompt p j)]\<rparr>)"
    by (simp add: getPrompt_def emit_def)
  from g show "effects (snd (listTools (Some n) reg)) = effects reg @ [Contact n ListTools]"
    by (simp add: listTools_def list_of_def split: sum.splits)
  from g show "effects (snd (listResources (Some n) reg)) = effects reg @ [Contact n ListResources]"
    by (simp add: listResources_def list_of_def split: sum.splits)
  from g show "effects (snd (listResourceTemplates (Some n) reg))
            = effects reg @ [Contact n ListResourceTemplates]"
    by (simp add: listResourceTemplates_def list_of_def split: sum.splits)
  from g show "effects (snd (listPrompts (Some n) reg)) = effects reg @ [Contact n ListPrompts]"
    by (simp add: listPrompts_def list_of_def split: sum.splits)
qed

text \<open>In the registry of the three backends: a tool call to the disconnected \<open>cache\<close>, a
  read from the unknown \<open>mail\<close>, and a tool call to the connected \<open>db\<close>.\<close>

theorem targeted_calls_need_connected_server_witness:
  "map_of (clients registry3) ''cache'' = Some cache_client \<and> \<not> isConnected cache_client
   \<and> executeTool ''cache'' ''get'' None registry3 = (Inl ''Server 'cache' is not connected'', registry3)
   \<and> listTools (Some ''cache'') registry3 = (Inl ''Server 'cache' is not connected'', registry3)
   \<and> map_of (clients registry3) ''mail'' = None
   \<and> readResource ''mail'' ''file:///inbox'' registry3 = (Inl ''Server 'mail' not found'', registry3)
   \<and> isConnected db_client
   \<and> executeTool ''db'' ''query'' (Some ''{}'') registry3 =
       (Inr ''ran query'', registry3\<lparr>effects := [Contact ''db'' (CallTool ''query'' ''{}'')]\<rparr>)"
proof -
  have c: "map_of (clients registry3) ''cache'' = Some cache_client"
    by (simp add: registry3_def)
  have nc: "\<not> isConnected cache_client" by (simp add: isConnected_def cache_client_def)
  have m: "map_of (clients registry3) ''mail'' = None" by (simp add: registry3_def)
  have d: "map_of (clients registry3) ''db'' = Some db_client" by (simp add: registry3_def)
  have dc: "isConnected db_client" by (simp add: isConnected_def db_client_def)
  have e: "effects registry3 = []" by (simp add: registry3_def)
  from targeted_calls_need_connected_server
      [where reg = registry3 and n = "''cache''" and t = "''get''" and a = None
         and msg = "''Server 'cache' is not connected''"] c nc
  have r1: "executeTool ''cache'' ''get'' None registry3 = (Inl ''Server 'cache' is not connected'', registry3)
     \<and> listTools (Some ''cache'') registry3 = (Inl ''Server 'cache' is not connected'', registry3)"
    by simp
  from targeted_calls_need_connected_server
      [where reg = registry3 and n = "''mail''" and u = "''file:///inbox''"
         and msg = "''Server 'mail' not found''"] m
  have r2: "readResource ''mail'' ''file:///inbox'' registry3 = (Inl ''Server 'mail' not found'', registry3)"
    by simp
  from targeted_calls_need_connected_server
      [where reg = registry3 and n = "''db''" and t = "''query''" and j = "''{}''"
         and cl = db_client] d dc
  have r3: "executeTool ''db'' ''query'' (Some ''{}'') registry3 =
       (Inr ''ran query'', registry3\<lparr>effects := [Contact ''db'' (CallTool ''query'' ''{}'')]\<rparr>)"
    by (simp add: e db_client_def)
  from c nc m dc r1 r2 r3 show ?thesis by blast
qed

subsection \<open>Draining the buffers\<close>

lemma foldl_onNotification:
  "foldl onNotification reg ns = reg\<lparr>notifications := notifications reg @ ns\<rparr>"
  by (induction ns arbitrary: reg) (simp_all add: onNotification_def)

lemma foldl_onLog:
  "foldl onLog reg ns = reg\<lparr>logs := logs reg @ ns\<rparr>"
  by (induction ns arbitrary: reg) (simp_all add: onLog_def)

text \<open>
  Claim C8. \<^verbatim>\<open>getNotifications\<close> returns the buffer as it is, in insertion order, and
  empties it: the count is zero afterwards, a second call at once returns the empty
  list, and after a drain followed by the notifications \<open>ns\<close> the next call returns
  exactly \<open>ns\<close>. \<^verbatim>\<open>getLogs\<close> does the same with the log buffer.
\<close>

theorem drain_buffers:
  "fst (getNotifications reg) = notifications reg
   \<and> getNotificationCount (snd (getNotifications reg)) = 0
   \<and> fst (getNotifications (snd (getNotifications reg))) = []
   \<and> fst (getNotifications (foldl onNotification (snd (getNotifications reg)) ns)) = ns
   \<and> fst (getLogs reg) = logs reg
   \<and> getLogCount (snd (getLogs reg)) = 0
   \<and> fst (getLogs (snd (getLogs reg))) = []
   \<and> fst (getLogs (foldl onLog (snd (getLogs reg)) ls)) = ls"
  by (simp add: getNotifications_def getNotificationCount_def getLogs_def getLogCount_def
      foldl_onNotification foldl_onLog)

theorem drain_buffers_witness:
  "fst (getNotifications registry3) = [''n1'', ''n2'']
   \<and> getNotificationCount (snd (getNotifications registry3)) = 0
   \<and> fst (getNotifications (snd (getNotifications registry3))) = []
   \<and> fst (getNotifications
            (foldl onNotification (snd (getNotifications registry3)) [''n3'', ''n4''])) =
       [''n3'', ''n4'']
   \<and> fst (getLogs registry3) = [''l1'']"
  using drain_buffers [of registry3 "[''n3'', ''n4'']" "[]"]
  by (simp add: registry3_def)

subsection \<open>Removing a server and shutting down\<close>

lemma delete_as_filter: "AList.delete k al = filter (\<lambda>(k', v). k' \<noteq> k) al"
  by (induction al) auto

lemma removeServer_sampling_pending:
  "pendingSamplingRequests (removeServer_sampling n entries reg) =
     filter (\<lambda>(k, v). k \<notin> fst ` set (filter (\<lambda>(rid, r). pr_server r = n) entries))
       (pendingSamplingRequests reg)"
proof (induction entries arbitrary: reg)
  case Nil
  show ?case by simp
next
  case (Cons e entries)
  obtain rid r where e: "e = (rid, r)" by (cases e)
  show ?case
    by (auto simp add: e Cons.IH delete_as_filter intro!: filter_cong)
qed

lemma removeServer_sampling_effects:
  "effects (removeServer_sampling n entries reg) =
     effects reg @
     map (\<lambda>(rid, r). Rejected Sampling (pr_id r) (''Server '' @ quoted n @ '' disconnected''))
       (filter (\<lambda>(rid, r). pr_server r = n) entries)"
proof (induction entries arbitrary: reg)
  case Nil
  show ?case by simp
next
  case (Cons e entries)
  obtain rid r where e: "e = (rid, r)" by (cases e)
  show ?case by (simp add: e Cons.IH)
qed

lemma removeServer_sampling_rest:
  "clients (removeServer_sampling n entries reg) = clients reg \<and>
   pendingElicitationRequests (removeServer_sampling n entries reg) = pendingElicitationRequests reg \<and>
   notifications (removeServer_sampling n entries reg) = notifications reg \<and>
   logs (removeServer_sampling n entries reg) = logs reg"
proof (induction entries arbitrary: reg)
  case Nil
  show ?case by simp
next
  case (Cons e entries)
  obtain rid r where e: "e = (rid, r)" by (cases e)
  show ?case by (simp add: e Cons.IH emit_def)
qed

lemma removeServer_elicitation_pending:
  "pendingElicitationRequests (removeServer_elicitation n entries reg) =
     filter (\<lambda>(k, v). k \<notin> fst ` set (filter (\<lambda>(rid, r). pr_server r = n) entries))
       (pendingElicitationRequests reg)"
proof (induction entries arbitrary: reg)
  case Nil
  show ?case by simp
next
  case (Cons e entries)
  obtain rid r where e: "e = (rid, r)" by (cases e)
  show ?case
    by (auto simp add: e Cons.IH delete_as_filter intro!: filter_cong)
qed

lemma removeServer_elicitation_effects:
  "effects (removeServer_elicitation n entries reg) =
     effects reg @
     map (\<lambda>(rid, r). Rejected Elicitation (pr_id r) (''Server '' @ quoted n @ '' disconnected''))
       (filter (\<lambda>(rid, r). pr_server r = n) entries)"
proof (induction entries arbitrary: reg)
  case Nil
  show ?case by simp
next
  case (Cons e entries)
  obtain rid r where e: "e = (rid, r)" by (cases e)
  show ?case by (simp add: e Cons.IH)
qed

lemma removeServer_elicitation_rest:
  "clients (removeServer_elicitation n entries reg) = clients reg \<and>
   pendingSamplingRequests (removeServer_elicitation n entries reg) = pendingSamplingRequests reg \<and>
   notifications (removeServer_elicitation n entries reg) = notifications reg \<and>
   logs (removeServer_elicitation n entries reg) = logs reg"
proof (induction entries arbitrary: reg)
  case Nil
  show ?case by simp
next
  case (Cons e entries)
  obtain rid r where e: "e = (rid, r)" by (cases e)
  show ?case by (simp add: e Cons.IH emit_def)
qed

lemma distinct_keys_filter:
  assumes "distinct (map fst al)"
  shows "filter (\<lambda>(k, v). k \<notin> fst ` set (filter P al)) al = filter (\<lambda>x. \<not> P x) al"
proof (rule filter_cong [OF refl])
  fix x assume x: "x \<in> set al"
  obtain k v where kv: "x = (k, v)" by (cases x)
  have "k \<in> fst ` set (filter P al) \<longleftrightarrow> P (k, v)"
  proof
    assume "k \<in> fst ` set (filter P al)"
    then obtain v' where v': "(k, v') \<in> set al" "P (k, v')" by auto
    from assms x v'(1) kv have "v' = v" by (metis eq_key_imp_eq_value)
    with v'(2) show "P (k, v)" by simp
  next
    assume "P (k, v)"
    with x kv show "k \<in> fst ` set (filter P al)" by force
  qed
  then show "(case x of (k, v) \<Rightarrow> k \<notin> fst ` set (filter P al)) = (\<not> P x)"
    by (simp add: kv)
qed

lemma registry_maps_ok_new: "registry_maps_ok (new_registry cb t)"
  by (simp add: registry_maps_ok_def new_registry_def)

lemma registry_maps_ok_incoming:
  "registry_maps_ok reg \<Longrightarrow>
   registry_maps_ok (handleIncomingSamplingRequest request reg) \<and>
   registry_maps_ok (handleIncomingElicitationRequest request reg)"
  by (simp add: registry_maps_ok_def handleIncomingSamplingRequest_def
      handleIncomingElicitationRequest_def distinct_update)

lemma removeServer_state:
  assumes ok: "registry_maps_ok reg" and cl: "map_of (clients reg) n = Some cl"
  shows "pendingSamplingRequests (snd (removeServer n reg)) =
           filter (\<lambda>(rid, r). pr_server r \<noteq> n) (pendingSamplingRequests reg)"
    and "pendingElicitationRequests (snd (removeServer n reg)) =
           filter (\<lambda>(rid, r). pr_server r \<noteq> n) (pendingElicitationRequests reg)"
    and "effects (snd (removeServer n reg)) =
           effects reg @
           map (\<lambda>(rid, r). Rejected Sampling (pr_id r) (''Server '' @ [CHR 0x27] @ n @ [CHR 0x27] @ '' disconnected''))
             (filter (\<lambda>(rid, r). pr_server r = n) (pendingSamplingRequests reg)) @
           map (\<lambda>(rid, r). Rejected Elicitation (pr_id r) (''Server '' @ [CHR 0x27] @ n @ [CHR 0x27] @ '' disconnected''))
             (filter (\<lambda>(rid, r). pr_server r = n) (pendingElicitationRequests reg)) @
           [Contact n Disconnect]"
proof -
  define reg1 where "reg1 = removeServer_sampling n (pendingSamplingRequests reg) reg"
  define reg2 where "reg2 = removeServer_elicitation n (pendingElicitationRequests reg1) reg1"
  have neq: "(\<lambda>x. \<not> (case x of (rid, r) \<Rightarrow> pr_server r = n)) = (\<lambda>(rid, r). pr_server r \<noteq> n)"
    by auto
  from ok have ds: "distinct (map fst (pendingSamplingRequests reg))"
    and de: "distinct (map fst (pendingElicitationRequests reg))"
    by (simp_all add: registry_maps_ok_def)
  have s1: "pendingSamplingRequests reg1 =
              filter (\<lambda>(rid, r). pr_server r \<noteq> n) (pendingSamplingRequests reg)"
    unfolding reg1_def removeServer_sampling_pending distinct_keys_filter [OF ds] neq
    by (rule refl)
  have e1: "pendingElicitationRequests reg1 = pendingElicitationRequests reg"
    unfolding reg1_def by (simp add: removeServer_sampling_rest)
  have e2: "pendingElicitationRequests reg2 =
              filter (\<lambda>(rid, r). pr_server r \<noteq> n) (pendingElicitationRequests reg)"
    unfolding reg2_def removeServer_elicitation_pending e1 distinct_keys_filter [OF de] neq
    by (rule refl)
  have s2: "pendingSamplingRequests reg2 = pendingSamplingRequests reg1"
    unfolding reg2_def by (simp add: removeServer_elicitation_rest)
  have f2: "effects reg2 =
           effects reg @
           map (\<lambda>(rid, r). Rejected Sampling (pr_id r) (''Server '' @ quoted n @ '' disconnected''))
             (filter (\<lambda>(rid, r). pr_server r = n) (pendingSamplingRequests reg)) @
           map (\<lambda>(rid, r). Rejected Elicitation (pr_id r) (''Server '' @ quoted n @ '' disconnected''))
             (filter (\<lambda>(rid, r). pr_server r = n) (pendingElicitationRequests reg))"
    unfolding reg2_def removeServer_elicitation_effects e1
    unfolding reg1_def removeServer_sampling_effects
    by simp
  have r: "snd (removeServer n reg) =
      (case c_disconnect cl of
         Some err \<Rightarrow> emit (Contact n Disconnect) reg2
       | None \<Rightarrow> (emit (Contact n Disconnect) reg2)
                   \<lparr>clients := AList.delete n (clients (emit (Contact n Disconnect) reg2))\<rparr>)"
    by (simp add: removeServer_def cl Let_def reg1_def reg2_def split: option.splits)
  show "pendingSamplingRequests (snd (removeServer n reg)) =
           filter (\<lambda>(rid, r). pr_server r \<noteq> n) (pendingSamplingRequests reg)"
    unfolding r by (cases "c_disconnect cl") (simp_all add: s2 s1)
  show "pendingElicitationRequests (snd (removeServer n reg)) =
           filter (\<lambda>(rid, r). pr_server r \<noteq> n) (pendingElicitationRequests reg)"
    unfolding r by (cases "c_disconnect cl") (simp_all add: e2)
  show "effects (snd (removeServer n reg)) =
           effects reg @
           map (\<lambda>(rid, r). Rejected Sampling (pr_id r) (''Server '' @ [CHR 0x27] @ n @ [CHR 0x27] @ '' disconnected''))
             (filter (\<lambda>(rid, r). pr_server r = n) (pendingSamplingRequests reg)) @
           map (\<lambda>(rid, r). Rejected Elicitation (pr_id r) (''Server '' @ [CHR 0x27] @ n @ [CHR 0x27] @ '' disconnected''))
             (filter (\<lambda>(rid, r). pr_server r = n) (pendingElicitationRequests reg)) @
           [Contact n Disconnect]"
    unfolding r by (cases "c_disconnect cl") (simp_all add: f2 quoted_def squote_def)
qed

lemma shutdown_reject_effects:
  "effects (shutdown_reject kind entries reg) =
     effects reg @ map (\<lambda>(rid, r). Rejected kind (pr_id r) ''Registry shutting down'') entries"
proof (induction entries arbitrary: reg)
  case Nil
  show ?case by simp
next
  case (Cons e entries)
  obtain rid r where e: "e = (rid, r)" by (cases e)
  show ?case by (simp add: e Cons.IH)
qed

lemma shutdown_reject_rest:
  "clients (shutdown_reject kind entries reg) = clients reg \<and>
   pendingSamplingRequests (shutdown_reject kind entries reg) = pendingSamplingRequests reg \<and>
   pendingElicitationRequests (shutdown_reject kind entries reg) = pendingElicitationRequests reg"
proof (induction entries arbitrary: reg)
  case Nil
  show ?case by simp
next
  case (Cons e entries)
  obtain rid r where e: "e = (rid, r)" by (cases e)
  show ?case by (simp add: e Cons.IH)
qed

lemma shutdown_disconnect_effects:
  "effects (shutdown_disconnect cls reg) = effects reg @ map (\<lambda>(n, cl). Contact n Disconnect) cls"
proof (induction cls arbitrary: reg)
  case Nil
  show ?case by simp
next
  case (Cons e cls)
  obtain n cl where e: "e = (n, cl)" by (cases e)
  show ?case by (simp add: e Cons.IH)
qed

lemma shutdown_disconnect_rest:
  "clients (shutdown_disconnect cls reg) = clients reg \<and>
   pendingSamplingRequests (shutdown_disconnect cls reg) = pendingSamplingRequests reg \<and>
   pendingElicitationRequests (shutdown_disconnect cls reg) = pendingElicitationRequests reg"
proof (induction cls arbitrary: reg)
  case Nil
  show ?case by simp
next
  case (Cons e cls)
  obtain n cl where e: "e = (n, cl)" by (cases e)
  show ?case by (simp add: e Cons.IH)
qed

lemma shutdown_state:
  "pendingSamplingRequests (snd (shutdown reg)) = []"
  "pendingElicitationRequests (snd (shutdown reg)) = []"
  "effects (snd (shutdown reg)) =
     effects reg @
     map (\<lambda>(rid, r). Rejected Sampling (pr_id r) ''Registry shutting down'') (pendingSamplingRequests reg) @
     map (\<lambda>(rid, r). Rejected Elicitation (pr_id r) ''Registry shutting down'')
       (pendingElicitationRequests reg) @
     map (\<lambda>(n, cl). Contact n Disconnect) (clients reg)"
  by (simp_all add: shutdown_def Let_def shutdown_disconnect_rest shutdown_disconnect_effects
      shutdown_reject_rest shutdown_reject_effects split: list.splits)

text \<open>
  Claim C9. Removing a registered server rejects, with the error
  \<^verbatim>\<open>Server '<name>' disconnected\<close>, exactly the pending sampling requests and then the
  pending elicitation requests whose \<^verbatim>\<open>server\<close> is that name, in the order of the maps,
  and deletes them; the pending requests of other servers stay, in their order. This
  holds whether or not the disconnect that follows succeeds. For a name that is not
  registered \<^verbatim>\<open>removeServer\<close> throws and changes nothing. \<^verbatim>\<open>shutdown\<close> rejects every pending
  request with \<^verbatim>\<open>Registry shutting down\<close> and leaves both pending maps empty. The keys of
  a map are distinct, which is the hypothesis \<open>registry_maps_ok\<close>.
\<close>

theorem pending_requests_rejected:
  "(registry_maps_ok reg \<and> hasServer reg n \<longrightarrow>
      pendingSamplingRequests (snd (removeServer n reg)) =
        filter (\<lambda>(rid, r). pr_server r \<noteq> n) (pendingSamplingRequests reg)
      \<and> pendingElicitationRequests (snd (removeServer n reg)) =
        filter (\<lambda>(rid, r). pr_server r \<noteq> n) (pendingElicitationRequests reg)
      \<and> effects (snd (removeServer n reg)) =
          effects reg @
          map (\<lambda>(rid, r). Rejected Sampling (pr_id r)
                 (''Server '' @ [CHR 0x27] @ n @ [CHR 0x27] @ '' disconnected''))
            (filter (\<lambda>(rid, r). pr_server r = n) (pendingSamplingRequests reg)) @
          map (\<lambda>(rid, r). Rejected Elicitation (pr_id r)
                 (''Server '' @ [CHR 0x27] @ n @ [CHR 0x27] @ '' disconnected''))
            (filter (\<lambda>(rid, r). pr_server r = n) (pendingElicitationRequests reg)) @
          [Contact n Disconnect])
   \<and> (\<not> hasServer reg n \<longrightarrow>
        removeServer n reg = (Inl (''Server '' @ [CHR 0x27] @ n @ [CHR 0x27] @ '' not found''), reg))
   \<and> pendingSamplingRequests (snd (shutdown reg)) = []
   \<and> pendingElicitationRequests (snd (shutdown reg)) = []
   \<and> effects (snd (shutdown reg)) =
       effects reg @
       map (\<lambda>(rid, r). Rejected Sampling (pr_id r) ''Registry shutting down'')
         (pendingSamplingRequests reg) @
       map (\<lambda>(rid, r). Rejected Elicitation (pr_id r) ''Registry shutting down'')
         (pendingElicitationRequests reg) @
       map (\<lambda>(n, cl). Contact n Disconnect) (clients reg)"
proof (intro conjI impI)
  assume a: "registry_maps_ok reg \<and> hasServer reg n"
  then obtain cl where cl: "map_of (clients reg) n = Some cl"
    by (auto simp add: hasServer_def)
  from a have ok: "registry_maps_ok reg" by simp
  show "pendingSamplingRequests (snd (removeServer n reg)) =
        filter (\<lambda>(rid, r). pr_server r \<noteq> n) (pendingSamplingRequests reg)"
    by (rule removeServer_state(1) [OF ok cl])
  show "pendingElicitationRequests (snd (removeServer n reg)) =
        filter (\<lambda>(rid, r). pr_server r \<noteq> n) (pendingElicitationRequests reg)"
    by (rule removeServer_state(2) [OF ok cl])
  show "effects (snd (removeServer n reg)) =
          effects reg @
          map (\<lambda>(rid, r). Rejected Sampling (pr_id r)
                 (''Server '' @ [CHR 0x27] @ n @ [CHR 0x27] @ '' disconnected''))
            (filter (\<lambda>(rid, r). pr_server r = n) (pendingSamplingRequests reg)) @
          map (\<lambda>(rid, r). Rejected Elicitation (pr_id r)
                 (''Server '' @ [CHR 0x27] @ n @ [CHR 0x27] @ '' disconnected''))
            (filter (\<lambda>(rid, r). pr_server r = n) (pendingElicitationRequests reg)) @
          [Contact n Disconnect]"
    by (rule removeServer_state(3) [OF ok cl])
next
  assume "\<not> hasServer reg n"
  then show "removeServer n reg =
       (Inl (''Server '' @ [CHR 0x27] @ n @ [CHR 0x27] @ '' not found''), reg)"
    by (simp add: hasServer_def removeServer_def quoted_def squote_def)
qed (rule shutdown_state)+

text \<open>Removing \<open>db\<close> from the registry of the three backends, which holds three pending
  sampling requests and two pending elicitation requests.\<close>

theorem pending_requests_rejected_witness:
  "registry_maps_ok registry3 \<and> hasServer registry3 ''db''
   \<and> pendingSamplingRequests (snd (removeServer ''db'' registry3)) = [request_of ''s2'' ''files'']
   \<and> pendingElicitationRequests (snd (removeServer ''db'' registry3)) = [request_of ''e1'' ''files'']
   \<and> effects (snd (removeServer ''db'' registry3)) =
       [Rejected Sampling ''s1'' ''Server 'db' disconnected'',
        Rejected Sampling ''s3'' ''Server 'db' disconnected'',
        Rejected Elicitation ''e2'' ''Server 'db' disconnected'',
        Contact ''db'' Disconnect]
   \<and> \<not> hasServer registry3 ''mail''
   \<and> removeServer ''mail'' registry3 = (Inl ''Server 'mail' not found'', registry3)"
proof -
  have ok: "registry_maps_ok registry3"
    by (simp add: registry_maps_ok_def registry3_def request_of_def)
  have h: "hasServer registry3 ''db''" by (simp add: hasServer_def registry3_def)
  have nh: "\<not> hasServer registry3 ''mail''" by (simp add: hasServer_def registry3_def)
  have f: "pendingSamplingRequests registry3 =
             [request_of ''s1'' ''db'', request_of ''s2'' ''files'', request_of ''s3'' ''db'']"
    "pendingElicitationRequests registry3 = [request_of ''e1'' ''files'', request_of ''e2'' ''db'']"
    "effects registry3 = []"
    by (simp_all add: registry3_def)
  from pending_requests_rejected [where reg = registry3 and n = "''db''"] ok h
  have r1: "pendingSamplingRequests (snd (removeServer ''db'' registry3)) = [request_of ''s2'' ''files'']
   \<and> pendingElicitationRequests (snd (removeServer ''db'' registry3)) = [request_of ''e1'' ''files'']
   \<and> effects (snd (removeServer ''db'' registry3)) =
       [Rejected Sampling ''s1'' ''Server 'db' disconnected'',
        Rejected Sampling ''s3'' ''Server 'db' disconnected'',
        Rejected Elicitation ''e2'' ''Server 'db' disconnected'',
        Contact ''db'' Disconnect]"
    by (simp add: f request_of_def)
  from pending_requests_rejected [where reg = registry3 and n = "''mail''"] nh
  have r2: "removeServer ''mail'' registry3 = (Inl ''Server 'mail' not found'', registry3)"
    by simp
  from ok h nh r1 r2 show ?thesis by blast
qed

subsection \<open>Adding a server\<close>

text \<open>
  Claim C10. \<^verbatim>\<open>addServer\<close> throws \<^verbatim>\<open>Server '<name>' already exists\<close> exactly when the name
  is registered, and then leaves the registry as it was. Otherwise it returns normally,
  also when connecting throws, and the name is registered afterwards: the client stays
  in the registry, with the status connected after a successful connect and the status
  error after a failed one.
\<close>

theorem addServer_registers:
  "(hasServer reg (cfg_name conf) \<longrightarrow>
      addServer conf backend outcome reg =
        (Inl (''Server '' @ [CHR 0x27] @ cfg_name conf @ [CHR 0x27] @ '' already exists''), reg))
   \<and> (\<not> hasServer reg (cfg_name conf) \<longrightarrow>
        fst (addServer conf backend outcome reg) = Inr ()
        \<and> hasServer (snd (addServer conf backend outcome reg)) (cfg_name conf)
        \<and> map_option info_status (getServer (snd (addServer conf backend outcome reg)) (cfg_name conf))
            = Some (case outcome of None \<Rightarrow> Connected | Some message \<Rightarrow> Error))"
proof (intro conjI impI)
  assume "hasServer reg (cfg_name conf)"
  then show "addServer conf backend outcome reg =
        (Inl (''Server '' @ [CHR 0x27] @ cfg_name conf @ [CHR 0x27] @ '' already exists''), reg)"
    by (simp add: addServer_def hasServer_def quoted_def squote_def)
next
  assume n: "\<not> hasServer reg (cfg_name conf)"
  then show "fst (addServer conf backend outcome reg) = Inr ()"
    by (simp add: addServer_def hasServer_def Let_def client_connect_def split: option.splits)
  from n show "hasServer (snd (addServer conf backend outcome reg)) (cfg_name conf)"
    by (simp add: addServer_def hasServer_def Let_def client_connect_def update_conv'
        split: option.splits)
  from n show "map_option info_status
       (getServer (snd (addServer conf backend outcome reg)) (cfg_name conf))
      = Some (case outcome of None \<Rightarrow> Connected | Some message \<Rightarrow> Error)"
    by (simp add: addServer_def hasServer_def getServer_def Let_def client_connect_def update_conv'
        split: option.splits)
qed

text \<open>Adding \<open>db\<close> to a new registry when the connection is refused, when it succeeds, and
  a second time.\<close>

theorem addServer_registers_witness:
  "\<not> hasServer (new_registry True None) (cfg_name db_config)
   \<and> fst (addServer db_config db_client (Some ''ECONNREFUSED'') (new_registry True None)) = Inr ()
   \<and> hasServer (snd (addServer db_config db_client (Some ''ECONNREFUSED'') (new_registry True None))) ''db''
   \<and> map_option info_status
        (getServer (snd (addServer db_config db_client (Some ''ECONNREFUSED'') (new_registry True None))) ''db'')
       = Some Error
   \<and> hasServer (snd (addServer db_config db_client None (new_registry True None))) ''db''
   \<and> fst (addServer db_config db_client None
             (snd (addServer db_config db_client None (new_registry True None))))
       = Inl ''Server 'db' already exists''"
proof -
  have a: "\<not> hasServer (new_registry True None) (cfg_name db_config)"
    by (simp add: hasServer_def new_registry_def)
  have n: "cfg_name db_config = ''db''" by (simp add: db_config_def)
  from addServer_registers [of "new_registry True None" db_config db_client "Some ''ECONNREFUSED''"]
    a n
  have b: "fst (addServer db_config db_client (Some ''ECONNREFUSED'') (new_registry True None)) = Inr ()
   \<and> hasServer (snd (addServer db_config db_client (Some ''ECONNREFUSED'') (new_registry True None))) ''db''
   \<and> map_option info_status
        (getServer (snd (addServer db_config db_client (Some ''ECONNREFUSED'') (new_registry True None))) ''db'')
       = Some Error"
    by simp
  from addServer_registers [of "new_registry True None" db_config db_client None] a n
  have c: "hasServer (snd (addServer db_config db_client None (new_registry True None))) ''db''"
    by simp
  from addServer_registers [of "snd (addServer db_config db_client None (new_registry True None))"
      db_config db_client None] c n
  have d: "fst (addServer db_config db_client None
             (snd (addServer db_config db_client None (new_registry True None))))
       = Inl ''Server 'db' already exists''"
    by simp
  from a b c d show ?thesis by blast
qed

section \<open>Properties of the call accounting\<close>

lemma billable_iff: "billable c = ((\<forall>ms. c \<noteq> SleepCall ms) \<and> (\<forall>vals. c \<noteq> LogCall vals))"
  by (cases c) simp_all

lemma callCount_invoke:
  "callCount (snd (invoke answer c ctx)) = callCount ctx + (if billable c then 1 else 0)"
  by (simp add: invoke_def Let_def split: api_call.splits)

lemma callCount_invoke_all:
  "callCount (invoke_all answer cs ctx) = callCount ctx + length (filter billable cs)"
  by (induction cs arbitrary: ctx) (simp_all add: callCount_invoke)

text \<open>
  Claim C1. A billable method, that is every method of the API other than \<^verbatim>\<open>sleep\<close> and
  \<^verbatim>\<open>log\<close>, increments \<^verbatim>\<open>callCount\<close> by one whatever its outcome; when the incremented
  value exceeds \<^verbatim>\<open>maxMcpCalls\<close> it fails with the call limit error for that limit and
  passes nothing to the registry, and otherwise it passes the call on and returns the
  registry's answer. \<^verbatim>\<open>sleep\<close> and \<^verbatim>\<open>log\<close> change neither the count nor the calls passed
  on. So after the invocations \<open>cs\<close> the count has grown by the number of billable ones
  among them, and \<^verbatim>\<open>stats.mcpCalls\<close> of an execution is that number.
\<close>

theorem call_accounting:
  "(billable c \<longrightarrow>
      callCount (snd (invoke answer c ctx)) = callCount ctx + 1
      \<and> (callCount ctx + 1 > maxMcpCalls (ctx_config ctx) \<longrightarrow>
           fst (invoke answer c ctx) =
             Inl (''Maximum mcp.* call limit exceeded ('' @
                  string_of_nat (maxMcpCalls (ctx_config ctx)) @ '')'')
           \<and> registry_calls (snd (invoke answer c ctx)) = registry_calls ctx)
      \<and> (callCount ctx + 1 \<le> maxMcpCalls (ctx_config ctx) \<longrightarrow>
           fst (invoke answer c ctx) = answer c
           \<and> registry_calls (snd (invoke answer c ctx)) = registry_calls ctx @ [c]))
   \<and> (\<not> billable c \<longrightarrow>
        callCount (snd (invoke answer c ctx)) = callCount ctx
        \<and> registry_calls (snd (invoke answer c ctx)) = registry_calls ctx)
   \<and> billable c = ((\<forall>ms. c \<noteq> SleepCall ms) \<and> (\<forall>vals. c \<noteq> LogCall vals))
   \<and> callCount (invoke_all answer cs ctx) = callCount ctx + length (filter billable cs)
   \<and> stats_mcpCalls (invoke_all answer cs (new_context cfg initialLogs now))
       = length (filter billable cs)"
proof (intro conjI impI)
  assume b: "billable c"
  then show "callCount (snd (invoke answer c ctx)) = callCount ctx + 1"
    by (simp add: callCount_invoke)
  { assume "callCount ctx + 1 > maxMcpCalls (ctx_config ctx)"
    with b show "fst (invoke answer c ctx) =
             Inl (''Maximum mcp.* call limit exceeded ('' @
                  string_of_nat (maxMcpCalls (ctx_config ctx)) @ '')'')"
      by (simp add: invoke_def Let_def call_limit_message_def)
  }
  { assume "callCount ctx + 1 > maxMcpCalls (ctx_config ctx)"
    with b show "registry_calls (snd (invoke answer c ctx)) = registry_calls ctx"
      by (simp add: invoke_def Let_def)
  }
  { assume "callCount ctx + 1 \<le> maxMcpCalls (ctx_config ctx)"
    with b show "fst (invoke answer c ctx) = answer c"
      by (simp add: invoke_def Let_def)
  }
  { assume "callCount ctx + 1 \<le> maxMcpCalls (ctx_config ctx)"
    with b show "registry_calls (snd (invoke answer c ctx)) = registry_calls ctx @ [c]"
      by (simp add: invoke_def Let_def)
  }
next
  assume nb: "\<not> billable c"
  then show "callCount (snd (invoke answer c ctx)) = callCount ctx"
    by (simp add: callCount_invoke)
  from nb show "registry_calls (snd (invoke answer c ctx)) = registry_calls ctx"
    by (simp add: invoke_def split: api_call.splits)
next
  show "billable c = ((\<forall>ms. c \<noteq> SleepCall ms) \<and> (\<forall>vals. c \<noteq> LogCall vals))"
    by (rule billable_iff)
  show "callCount (invoke_all answer cs ctx) = callCount ctx + length (filter billable cs)"
    by (rule callCount_invoke_all)
  show "stats_mcpCalls (invoke_all answer cs (new_context cfg initialLogs now))
       = length (filter billable cs)"
    by (simp add: stats_mcpCalls_def callCount_invoke_all new_context_def)
qed

lemma ctx5_fields:
  "callCount ctx5 = 5 \<and> maxMcpCalls (ctx_config ctx5) = 5 \<and>
   registry_calls ctx5 =
     [ListServersCall, ListServersCall, ListServersCall, ListServersCall, ListServersCall]"
  by (simp add: ctx5_def new_context_def cfg5_def invoke_def Let_def mock_answer_def)

text \<open>With the limit 5 of the test "enforces mcp call limit": the sixth \<^verbatim>\<open>listServers\<close>
  fails with the canonical message, reaches no registry and still counts; \<^verbatim>\<open>sleep\<close> and
  \<^verbatim>\<open>log\<close> do not count.\<close>

theorem call_accounting_witness:
  "billable ListServersCall
   \<and> callCount ctx5 + 1 > maxMcpCalls (ctx_config ctx5)
   \<and> fst (invoke mock_answer ListServersCall ctx5) = Inl ''Maximum mcp.* call limit exceeded (5)''
   \<and> registry_calls (snd (invoke mock_answer ListServersCall ctx5)) = registry_calls ctx5
   \<and> callCount (snd (invoke mock_answer ListServersCall ctx5)) = 6
   \<and> \<not> billable (SleepCall 10)
   \<and> callCount (snd (invoke mock_answer (SleepCall 10) ctx5)) = 5
   \<and> stats_mcpCalls
        (invoke_all mock_answer
           [LogCall [''test1''], SleepCall 10, ListToolsCall None, LogCall [''test2'']]
           (new_context cfg5 [] 0)) = 1"
proof -
  have b: "billable ListServersCall" by simp
  have nb: "\<not> billable (SleepCall 10)" by simp
  have over: "callCount ctx5 + 1 > maxMcpCalls (ctx_config ctx5)"
    by (simp add: ctx5_fields)
  have five: "string_of_nat 5 = ''5''" by (simp add: digit_char_def)
  from call_accounting [where c = ListServersCall and answer = mock_answer and ctx = ctx5] b over
  have r1: "fst (invoke mock_answer ListServersCall ctx5) = Inl ''Maximum mcp.* call limit exceeded (5)''
   \<and> registry_calls (snd (invoke mock_answer ListServersCall ctx5)) = registry_calls ctx5
   \<and> callCount (snd (invoke mock_answer ListServersCall ctx5)) = 6"
    by (simp add: ctx5_fields five digit_char_def)
  from call_accounting [where c = "SleepCall 10" and answer = mock_answer and ctx = ctx5] nb
  have r2: "callCount (snd (invoke mock_answer (SleepCall 10) ctx5)) = 5"
    by (simp add: ctx5_fields)
  from call_accounting
      [where answer = mock_answer and cfg = cfg5 and initialLogs = "[]" and now = 0
         and cs = "[LogCall [''test1''], SleepCall 10, ListToolsCall None, LogCall [''test2'']]"]
  have r3: "stats_mcpCalls
        (invoke_all mock_answer
           [LogCall [''test1''], SleepCall 10, ListToolsCall None, LogCall [''test2'']]
           (new_context cfg5 [] 0)) = 1"
    by simp
  from b nb over r1 r2 r3 show ?thesis by blast
qed

end
